theory Spec2Isabelle
  imports Main
begin

section \<open>Python strings\<close>

text \<open>
  A Python \<open>str\<close> is a sequence of Unicode code points, so a character is modelled by its
  code point and a string by a list of them. \<open>lit\<close> embeds an ASCII literal.
\<close>

type_synonym pychar = nat
type_synonym pystr = "pychar list"

definition lit :: "string \<Rightarrow> pystr" where
  "lit s = map of_char s"

text \<open>
  The characters \<open>str.strip()\<close> removes (those with \<open>str.isspace()\<close>): U+0009..U+000D,
  U+001C..U+0020, U+0085, U+00A0, U+1680, U+2000..U+200A, U+2028, U+2029, U+202F, U+205F, U+3000.
\<close>

definition whitespace :: "pychar list" where
  "whitespace = [9, 10, 11, 12, 13, 28, 29, 30, 31, 32, 133, 160, 5760,
     8192, 8193, 8194, 8195, 8196, 8197, 8198, 8199, 8200, 8201, 8202,
     8232, 8233, 8239, 8287, 12288]"

definition isspace :: "pychar \<Rightarrow> bool" where
  "isspace c = (c \<in> set whitespace)"

definition str_strip :: "pystr \<Rightarrow> pystr" where
  "str_strip s = rev (dropWhile isspace (rev (dropWhile isspace s)))"

text \<open>
  \<open>s.split(c)\<close> for a one-character separator. The result is never empty
  (\<open>''.split(c) == ['']\<close>), so the last case of the inner \<open>case\<close> does not arise.
\<close>

fun str_split :: "pychar \<Rightarrow> pystr \<Rightarrow> pystr list" where
  "str_split c [] = [[]]"
| "str_split c (x # xs) =
     (if x = c then [] # str_split c xs
      else (case str_split c xs of
              w # ws \<Rightarrow> (x # w) # ws
            | [] \<Rightarrow> [[x]]))"

text \<open>\<open>sep.join(xs)\<close>.\<close>

fun str_join :: "pystr \<Rightarrow> pystr list \<Rightarrow> pystr" where
  "str_join sep [] = []"
| "str_join sep [x] = x"
| "str_join sep (x # y # ys) = x @ sep @ str_join sep (y # ys)"

text \<open>\<open>s.startswith(p)\<close>.\<close>

definition startswith :: "pystr \<Rightarrow> pystr \<Rightarrow> bool" where
  "startswith s p = (take (length p) s = p)"

text \<open>\<open>str(n)\<close> for an \<open>int\<close>.\<close>

fun str_nat :: "nat \<Rightarrow> pystr" where
  "str_nat n = (if n < 10 then [48 + n] else str_nat (n div 10) @ [48 + n mod 10])"

definition str_int :: "int \<Rightarrow> pystr" where
  "str_int i = (if i < 0 then 45 # str_nat (nat (- i)) else str_nat (nat i))"

subsection \<open>\<open>int(s)\<close>\<close>

text \<open>
  \<open>int(s)\<close> on a \<open>str\<close>: surrounding whitespace is ignored, then an optional sign, then
  decimal digits with single underscores allowed between digits. Every Unicode decimal digit
  (category Nd) counts; the Nd characters come in runs of ten starting at a zero digit, listed
  here by their zero (Unicode 14). More than 4300 digits raise \<open>ValueError\<close> too (the
  interpreter's default limit on integer string conversion). \<open>None\<close> is \<open>ValueError\<close>.
\<close>

definition decimal_zeros :: "pychar list" where
  "decimal_zeros = [48, 1632, 1776, 1984, 2406, 2534, 2662, 2790, 2918, 3046, 3174, 3302,
     3430, 3558, 3664, 3792, 3872, 4160, 4240, 6112, 6160, 6470, 6608, 6784, 6800, 6992,
     7088, 7232, 7248, 42528, 43216, 43264, 43472, 43504, 43600, 44016, 65296, 66720, 68912,
     69734, 69872, 69942, 70096, 70384, 70736, 70864, 71248, 71360, 71472, 71904, 72016,
     72784, 73040, 73120, 92768, 92864, 93008, 120782, 120792, 120802, 120812, 120822,
     123200, 123632, 125264, 130032]"

definition digit_value :: "pychar \<Rightarrow> nat option" where
  "digit_value c =
     (case filter (\<lambda>z. z \<le> c \<and> c < z + 10) decimal_zeros of
        [] \<Rightarrow> None
      | z # _ \<Rightarrow> Some (c - z))"

fun int_digits :: "pystr \<Rightarrow> nat list option" where
  "int_digits [] = None"
| "int_digits [c] = map_option (\<lambda>d. [d]) (digit_value c)"
| "int_digits (c # u # cs) =
     (case digit_value c of
        None \<Rightarrow> None
      | Some d \<Rightarrow> map_option ((#) d) (int_digits (if u = 95 then cs else u # cs)))"

definition int_max_str_digits :: nat where
  "int_max_str_digits = 4300"

definition py_int :: "pystr \<Rightarrow> int option" where
  "py_int s =
     (let t = str_strip s;
          neg = (t \<noteq> [] \<and> hd t = 45);
          body = (if t \<noteq> [] \<and> (hd t = 45 \<or> hd t = 43) then tl t else t)
      in case int_digits body of
           None \<Rightarrow> None
         | Some ds \<Rightarrow>
             if int_max_str_digits < length ds then None
             else Some ((if neg then - 1 else 1) * int (foldl (\<lambda>a d. 10 * a + d) 0 ds)))"

section \<open>Star rendering (generators/html.py, generators/markdown.py)\<close>

text \<open>The star glyph U+2B50.\<close>

definition STAR :: pystr where
  "STAR = [11088]"

text \<open>
  \<open>value_to_stars\<close> is the same function in both generator modules:
  \<^verbatim>\<open>try: num = int(value.strip()); return STAR * min(max(num, 1), 5)\<close>
  \<^verbatim>\<open>except ValueError: return value\<close>
\<close>

definition value_to_stars :: "pystr \<Rightarrow> pystr" where
  "value_to_stars v =
     (case py_int (str_strip v) of
        Some num \<Rightarrow> concat (replicate (nat (min (max num 1) 5)) STAR)
      | None \<Rightarrow> v)"

text \<open>The number of star glyphs in a string.\<close>

definition star_count :: "pystr \<Rightarrow> nat" where
  "star_count s = length (filter (\<lambda>c. c = 11088) s)"

section \<open>Dictionaries\<close>

text \<open>
  A \<open>dict\<close> keeps its keys in insertion order; \<open>d[k] = v\<close> replaces the value of a key
  that is present and appends a new key otherwise.
\<close>

type_synonym ('k, 'v) dict = "('k \<times> 'v) list"

fun dict_set :: "('k, 'v) dict \<Rightarrow> 'k \<Rightarrow> 'v \<Rightarrow> ('k, 'v) dict" where
  "dict_set [] k v = [(k, v)]"
| "dict_set ((k', v') # d) k v =
     (if k' = k then (k, v) # d else (k', v') # dict_set d k v)"

definition dict_get :: "('k, 'v) dict \<Rightarrow> 'k \<Rightarrow> 'v \<Rightarrow> 'v" where
  "dict_get d k dflt = (case map_of d k of Some v \<Rightarrow> v | None \<Rightarrow> dflt)"

section \<open>Exceptions and JSON values\<close>

text \<open>
  An exception is its class and its \<open>str()\<close>. \<open>ClientError\<close> stands for
  \<open>aiohttp.ClientError\<close> and its subclasses, \<open>OtherError\<close> for every other subclass of
  \<open>Exception\<close>; \<open>APIConnectionError\<close> and \<open>APIResponseError\<close> are core/exceptions.py's.
\<close>

datatype exc_class = RuntimeError | ClientError | KeyError | IndexError | TypeError
  | OtherError | APIConnectionError | APIResponseError

datatype py_exc = Exc exc_class pystr

fun exc_class_of :: "py_exc \<Rightarrow> exc_class" where
  "exc_class_of (Exc c m) = c"

fun exc_str :: "py_exc \<Rightarrow> pystr" where
  "exc_str (Exc c m) = m"

text \<open>
  What \<open>response.json()\<close> returns. Numbers are integers here; a float is not subscriptable
  either, so it takes the path of \<open>JNum\<close>. A \<open>JDict\<close> has distinct keys.
\<close>

datatype json = JNull | JBool bool | JNum int | JStr pystr | JList "json list"
  | JDict "(pystr \<times> json) list"

datatype subscript = KStr pystr | KInt int

text \<open>
  \<open>xs[i]\<close> on a sequence (a negative index counts from the end), and \<open>value[key]\<close> on a
  JSON value with the exception Python raises when it fails. \<open>str(KeyError(k))\<close> is
  \<open>repr(k)\<close>: the key in single quotes (code point 39) for the plain keys used here.
\<close>

definition py_index :: "'a list \<Rightarrow> int \<Rightarrow> 'a option" where
  "py_index xs i =
     (if 0 \<le> i \<and> i < int (length xs) then Some (xs ! nat i)
      else if i < 0 \<and> - int (length xs) \<le> i then Some (xs ! nat (int (length xs) + i))
      else None)"

fun getitem :: "json \<Rightarrow> subscript \<Rightarrow> py_exc + json" where
  "getitem (JDict d) (KStr k) =
     (case map_of d k of
        Some v \<Rightarrow> Inr v
      | None \<Rightarrow> Inl (Exc KeyError ([39] @ k @ [39])))"
| "getitem (JDict d) (KInt i) = Inl (Exc KeyError (str_int i))"
| "getitem (JList xs) (KInt i) =
     (case py_index xs i of
        Some v \<Rightarrow> Inr v
      | None \<Rightarrow> Inl (Exc IndexError (lit ''list index out of range'')))"
| "getitem (JList xs) (KStr k) =
     Inl (Exc TypeError (lit ''list indices must be integers or slices, not str''))"
| "getitem (JStr s) (KInt i) =
     (case py_index s i of
        Some c \<Rightarrow> Inr (JStr [c])
      | None \<Rightarrow> Inl (Exc IndexError (lit ''string index out of range'')))"
| "getitem (JStr s) (KStr k) =
     Inl (Exc TypeError (lit ''string indices must be integers, not '' @ [39] @ lit ''str'' @ [39]))"
| "getitem JNull k = Inl (Exc TypeError ([39] @ lit ''NoneType'' @ [39] @ lit '' object is not subscriptable''))"
| "getitem (JBool b) k = Inl (Exc TypeError ([39] @ lit ''bool'' @ [39] @ lit '' object is not subscriptable''))"
| "getitem (JNum i) k = Inl (Exc TypeError ([39] @ lit ''int'' @ [39] @ lit '' object is not subscriptable''))"

definition bind_exc :: "py_exc + 'a \<Rightarrow> ('a \<Rightarrow> py_exc + 'b) \<Rightarrow> py_exc + 'b" where
  "bind_exc r f = (case r of Inl e \<Rightarrow> Inl e | Inr v \<Rightarrow> f v)"

text \<open>\<^verbatim>\<open>result["choices"][0]["message"]["content"]\<close>\<close>

definition extract_content :: "json \<Rightarrow> py_exc + json" where
  "extract_content result =
     bind_exc (bind_exc (bind_exc (getitem result (KStr (lit ''choices'')))
       (\<lambda>v. getitem v (KInt 0)))
       (\<lambda>v. getitem v (KStr (lit ''message''))))
       (\<lambda>v. getitem v (KStr (lit ''content'')))"

section \<open>The API client (core/constants.py, api/client.py)\<close>

definition MAX_RETRIES :: nat where
  "MAX_RETRIES = 3"

definition RETRY_DELAY :: nat where
  "RETRY_DELAY = 2"

definition DEFAULT_SYSTEM_PROMPT :: pystr where
  \<open>DEFAULT_SYSTEM_PROMPT =
     lit ''You are an experienced SEO content writer. You create content that meets Google E-E-A-T standards and provides value to readers.\<newline>''
     @ lit ''\<newline>CORE PRINCIPLES:\<newline>''
     @ lit ''- Every sentence should provide concrete value to the reader\<newline>''
     @ lit ''- Avoid filler phrases ("as everyone knows", "undoubtedly", "it goes without saying")\<newline>''
     @ lit ''- Include concrete examples, numerical data, and practical tips\<newline>''
     @ lit ''- Use natural keyword placement, avoid keyword stuffing\<newline>''
     @ lit ''- Avoid exaggerated claims ("the best", "absolutely", "must")\<newline>''
     @ lit ''\<newline>FORMAT RULES:\<newline>''
     @ lit ''- Only produce content in the requested format\<newline>''
     @ lit ''- Do not add explanations, comments, or meta information\<newline>''
     @ lit ''- Do not use HTML tags (unless specified otherwise)''\<close>

text \<open>
  The client object. \<open>session\<close> is the attribute \<open>_session\<close>: \<open>None\<close> until
  \<open>__aenter__\<close> creates the \<open>aiohttp.ClientSession\<close>; \<open>__aexit__\<close> closes it and leaves
  the closed session in place.
\<close>

record ClientSession =
  closed :: bool

record OpenRouterClient =
  api_key :: pystr
  model :: pystr
  site_url :: pystr
  session :: "ClientSession option"

definition OpenRouterClient_init :: "pystr \<Rightarrow> pystr \<Rightarrow> pystr \<Rightarrow> OpenRouterClient" where
  "OpenRouterClient_init key mdl url =
     \<lparr>api_key = key, model = mdl, site_url = url, session = None\<rparr>"

definition aenter :: "OpenRouterClient \<Rightarrow> OpenRouterClient" where
  "aenter self = self\<lparr>session := Some \<lparr>closed = False\<rparr>\<rparr>"

definition aexit :: "OpenRouterClient \<Rightarrow> OpenRouterClient" where
  "aexit self =
     (case session self of
        Some s \<Rightarrow> self\<lparr>session := Some (s\<lparr>closed := True\<rparr>)\<rparr>
      | None \<Rightarrow> self)"

text \<open>
  The progress bar, created with a total as main.py does. \<open>if pbar:\<close> holds for a bar whose
  total is positive (\<open>tqdm.__bool__\<close>); \<open>pbar.update(1)\<close> advances its counter.
\<close>

record tqdm =
  total :: nat
  n :: nat

definition tqdm_bool :: "tqdm option \<Rightarrow> bool" where
  "tqdm_bool pbar = (case pbar of None \<Rightarrow> False | Some b \<Rightarrow> 0 < total b)"

definition tqdm_update :: "tqdm option \<Rightarrow> tqdm option" where
  "tqdm_update pbar = map_option (\<lambda>b. b\<lparr>n := n b + 1\<rparr>) pbar"

text \<open>
  The JSON body of a request (the temperature 0.7 is constant and left out), and what the
  outside world answers to one POST: an exception raised by \<open>post\<close>, \<open>raise_for_status\<close>
  or \<open>response.json()\<close>, or the decoded response. A \<open>network\<close> gives the answer to each
  attempt of one \<open>generate\<close> call, by attempt number.
\<close>

record payload =
  p_model :: pystr
  p_system :: pystr
  p_user :: pystr
  p_max_tokens :: nat

datatype http_result = Raises py_exc | Responds json

type_synonym network = "nat \<Rightarrow> http_result"

text \<open>
  The state a call runs in: the client, the progress bar the caller passes as \<open>pbar\<close> (an
  object the call mutates), and the log of what the call did to the outside world, in order:
  requests sent and delays awaited (\<open>asyncio.sleep\<close>, in seconds).
\<close>

datatype event = Post payload | Sleep nat

record runtime =
  client :: OpenRouterClient
  pbar :: "tqdm option"
  events :: "event list"

text \<open>
  The body of the \<open>try\<close> of one attempt. A closed session refuses the request
  (\<open>RuntimeError\<close>, before anything is sent). After the response is decoded the bar is
  advanced, and only then is the completion text looked up in the response.
\<close>

definition try_body :: "payload \<Rightarrow> http_result \<Rightarrow> runtime \<Rightarrow> (py_exc + json) \<times> runtime" where
  "try_body pl answer w =
     (if session (client w) = Some \<lparr>closed = True\<rparr>
      then (Inl (Exc RuntimeError (lit ''Session is closed'')), w)
      else
        (let w1 = w\<lparr>events := events w @ [Post pl]\<rparr> in
         case answer of
           Raises e \<Rightarrow> (Inl e, w1)
         | Responds result \<Rightarrow>
             (let w2 = (if tqdm_bool (pbar w1) then w1\<lparr>pbar := tqdm_update (pbar w1)\<rparr> else w1)
              in (extract_content result, w2))))"

text \<open>The \<open>except\<close> clauses: the value assigned to \<open>last_error\<close>.\<close>

definition except_clause :: "py_exc \<Rightarrow> py_exc" where
  "except_clause e =
     (if exc_class_of e = ClientError
        then Exc APIConnectionError (lit ''Connection error: '' @ exc_str e)
      else if exc_class_of e = KeyError
        then Exc APIResponseError (lit ''Unexpected API response: '' @ exc_str e)
      else e)"

definition str_last_error :: "py_exc option \<Rightarrow> pystr" where
  "str_last_error last_error = (case last_error of None \<Rightarrow> lit ''None'' | Some e \<Rightarrow> exc_str e)"

text \<open>
  \<^verbatim>\<open>for attempt in range(MAX_RETRIES):\<close> over the attempts still to make, and the
  \<open>raise\<close> after the loop.
\<close>

fun retry_loop ::
  "nat list \<Rightarrow> payload \<Rightarrow> network \<Rightarrow> py_exc option \<Rightarrow> runtime \<Rightarrow> (py_exc + json) \<times> runtime" where
  "retry_loop [] pl net last_error w =
     (Inl (Exc APIConnectionError
        (lit ''API call failed after '' @ str_nat MAX_RETRIES @ lit '' attempts: ''
         @ str_last_error last_error)), w)"
| "retry_loop (attempt # rest) pl net last_error w =
     (case try_body pl (net attempt) w of
        (Inr content, w1) \<Rightarrow> (Inr content, w1)
      | (Inl e, w1) \<Rightarrow>
          retry_loop rest pl net (Some (except_clause e))
            (if attempt < MAX_RETRIES - 1
             then w1\<lparr>events := events w1 @ [Sleep (RETRY_DELAY * (attempt + 1))]\<rparr>
             else w1))"

text \<open>The \<open>payload\<close> of \<open>generate\<close>, with the default for a missing system prompt.\<close>

definition request_payload :: "OpenRouterClient \<Rightarrow> pystr \<Rightarrow> pystr option \<Rightarrow> payload" where
  "request_payload self prompt system_prompt =
     \<lparr>p_model = model self,
      p_system = (case system_prompt of None \<Rightarrow> DEFAULT_SYSTEM_PROMPT | Some s \<Rightarrow> s),
      p_user = prompt,
      p_max_tokens = 4000\<rparr>"

definition generate :: "pystr \<Rightarrow> pystr option \<Rightarrow> network \<Rightarrow> runtime \<Rightarrow> (py_exc + json) \<times> runtime" where
  "generate prompt system_prompt net w =
     (if session (client w) = None
      then (Inl (Exc RuntimeError (lit ''Client must be used with context manager'')), w)
      else retry_loop [0..<MAX_RETRIES] (request_payload (client w) prompt system_prompt)
             net None w)"

text \<open>
  \<open>generate_batch\<close>. \<open>asyncio.gather(..., return_exceptions=True)\<close> runs every task to
  its end and returns the results in task order, an exception standing for a failed task.
  The tasks share the progress bar only, and its updates commute, so the tasks are run here
  one after the other; task \<open>i\<close> talks to the network \<open>nets i\<close>.
\<close>

fun gather ::
  "(nat \<times> pystr \<times> pystr) list \<Rightarrow> (nat \<Rightarrow> network) \<Rightarrow> runtime
     \<Rightarrow> (py_exc + pystr \<times> json) list \<times> runtime" where
  "gather [] nets w = ([], w)"
| "gather ((i, nm, prompt) # ts) nets w =
     (case generate prompt None (nets i) w of
        (r, w1) \<Rightarrow>
          (case gather ts nets w1 of
             (items, w2) \<Rightarrow>
               ((case r of Inl e \<Rightarrow> Inl e | Inr content \<Rightarrow> Inr (nm, content)) # items, w2)))"

text \<open>The loop over the gathered results: the first exception is raised.\<close>

fun collect ::
  "(py_exc + pystr \<times> json) list \<Rightarrow> (pystr, json) dict \<Rightarrow> py_exc + (pystr, json) dict" where
  "collect [] output = Inr output"
| "collect (Inl e # items) output = Inl e"
| "collect (Inr (nm, content) # items) output = collect items (dict_set output nm content)"

definition generate_batch ::
  "(pystr \<times> pystr) list \<Rightarrow> (nat \<Rightarrow> network) \<Rightarrow> runtime
     \<Rightarrow> (py_exc + (pystr, json) dict) \<times> runtime" where
  "generate_batch tasks nets w =
     (case gather (zip [0..<length tasks] tasks) nets w of
        (results, w1) \<Rightarrow> (collect results [], w1))"

text \<open>
  What one task of a batch ends with, seen from the state the batch starts in: the
  exception \<open>generate\<close> raises, or the task's name with the generated content.
\<close>

definition task_result ::
  "runtime \<Rightarrow> (nat \<Rightarrow> network) \<Rightarrow> nat \<Rightarrow> pystr \<times> pystr \<Rightarrow> py_exc + pystr \<times> json" where
  "task_result w nets i task =
     (case fst (generate (snd task) None (nets i) w) of
        Inl e \<Rightarrow> Inl e
      | Inr content \<Rightarrow> Inr (fst task, content))"

text \<open>
  The exception one attempt of a client ends with, if any, given the answer of the network,
  and the requests the attempt sends.
\<close>

definition attempt_error :: "OpenRouterClient \<Rightarrow> http_result \<Rightarrow> py_exc option" where
  "attempt_error self answer =
     (if session self = Some \<lparr>closed = True\<rparr>
      then Some (Exc RuntimeError (lit ''Session is closed''))
      else case answer of
             Raises e \<Rightarrow> Some e
           | Responds result \<Rightarrow>
               (case extract_content result of Inl e \<Rightarrow> Some e | Inr c \<Rightarrow> None))"

definition attempt_posts :: "OpenRouterClient \<Rightarrow> payload \<Rightarrow> event list" where
  "attempt_posts self pl = (if session self = Some \<lparr>closed = True\<rparr> then [] else [Post pl])"

text \<open>The results of all tasks of a batch, in task order.\<close>

definition task_results ::
  "runtime \<Rightarrow> (nat \<Rightarrow> network) \<Rightarrow> (pystr \<times> pystr) list \<Rightarrow> (py_exc + pystr \<times> json) list" where
  "task_results w nets tasks =
     map (\<lambda>(i, task). task_result w nets i task) (zip [0..<length tasks] tasks)"

text \<open>
  Inputs for examples: a well-formed response carrying a completion text, and the state of
  a client inside its \<open>async with\<close> block.
\<close>

definition ok_response :: "pystr \<Rightarrow> json" where
  "ok_response text =
     JDict [(lit ''choices'',
       JList [JDict [(lit ''message'', JDict [(lit ''content'', JStr text)])]])]"

definition opened_runtime :: "tqdm option \<Rightarrow> runtime" where
  "opened_runtime bar =
     \<lparr>client = aenter (OpenRouterClient_init (lit ''key'') (lit ''model'') (lit ''url'')),
      pbar = bar, events = []\<rparr>"

text \<open>A batch of three tasks, a network that is down for the second task only, and one that
  answers every task.\<close>

definition three_tasks :: "(pystr \<times> pystr) list" where
  "three_tasks = [(lit ''intro'', lit ''p1''), (lit ''section_0'', lit ''p2''),
     (lit ''conclusion'', lit ''p3'')]"

definition second_down :: "nat \<Rightarrow> network" where
  "second_down i k =
     (if i = 1 then Raises (Exc ClientError (lit ''down'')) else Responds (ok_response (lit ''text'')))"

definition all_up :: "nat \<Rightarrow> network" where
  "all_up i k = Responds (ok_response (lit ''text''))"

section \<open>Tables (core/models.py, utils/text.py, generators/markdown.py)\<close>

record TableColumn =
  name :: pystr
  header :: pystr
  placeholder :: pystr
  type :: pystr

record TableRow =
  "values" :: "(pystr, pystr) dict"

definition TableRow_get :: "TableRow \<Rightarrow> pystr \<Rightarrow> pystr \<Rightarrow> pystr" where
  "TableRow_get self column_name dflt = dict_get (values self) column_name dflt"

text \<open>
  \<open>parse_table_data\<close>. \<open>line_fields\<close> is the list comprehension
  \<^verbatim>\<open>[p.strip() for p in line.split('|')]\<close>; \<open>row_values\<close> is the loop
  \<^verbatim>\<open>for i, col in enumerate(columns): values[col.name] = parts[i] if i < len(parts) else ""\<close>
  from index \<open>i\<close> on; \<open>parse_line\<close> is the body of the loop over the lines.
\<close>

definition line_fields :: "pystr \<Rightarrow> pystr list" where
  "line_fields line = map str_strip (str_split 124 line)"

fun row_values ::
  "nat \<Rightarrow> TableColumn list \<Rightarrow> pystr list \<Rightarrow> (pystr, pystr) dict \<Rightarrow> (pystr, pystr) dict" where
  "row_values i [] parts vals = vals"
| "row_values i (col # cols) parts vals =
     row_values (i + 1) cols parts
       (dict_set vals (name col) (if i < length parts then parts ! i else []))"

definition parse_line :: "TableColumn list \<Rightarrow> pystr \<Rightarrow> TableRow list \<Rightarrow> TableRow list" where
  "parse_line columns raw_line rows =
     (let line = str_strip raw_line in
      if line = [] \<or> 124 \<notin> set line then rows
      else
        (let parts = line_fields line in
         if length columns \<le> length parts
         then rows @ [\<lparr>values = row_values 0 columns parts []\<rparr>]
         else rows))"

definition parse_table_data :: "pystr \<Rightarrow> TableColumn list \<Rightarrow> TableRow list" where
  "parse_table_data raw_data columns =
     fold (parse_line columns) (str_split 10 (str_strip raw_data)) []"

text \<open>
  \<open>build_table_md\<close>. \<open>render_cell\<close> is the body of the loop over the columns of one row;
  \<open>md_line\<close> is \<^verbatim>\<open>"| " + " | ".join(values) + " |"\<close>.
\<close>

definition render_cell :: "TableRow \<Rightarrow> TableColumn \<Rightarrow> pystr" where
  "render_cell row col =
     (let v = TableRow_get row (name col) []
      in if type col = lit ''stars'' then value_to_stars v else v)"

definition md_line :: "pystr list \<Rightarrow> pystr" where
  "md_line cells = lit ''| '' @ str_join (lit '' | '') cells @ lit '' |''"

definition build_table_md :: "TableRow list \<Rightarrow> TableColumn list \<Rightarrow> pystr" where
  "build_table_md rows columns =
     (if rows = [] \<or> columns = [] then []
      else str_join [10]
             (md_line (map header columns)
              # md_line (replicate (length columns) (lit ''---''))
              # map (\<lambda>row. md_line (map (render_cell row) columns)) rows))"

text \<open>The values a list of rows holds for one column.\<close>

definition column_values :: "pystr \<Rightarrow> TableRow list \<Rightarrow> pystr list" where
  "column_values column_name rows = map (\<lambda>row. TableRow_get row column_name []) rows"

text \<open>A string free of the field separator and of the line separator.\<close>

definition plain :: "pystr \<Rightarrow> bool" where
  "plain s = (124 \<notin> set s \<and> 10 \<notin> set s)"

text \<open>The cells of the lines of a Markdown table: header line, separator line, data lines.\<close>

definition table_cells :: "TableRow list \<Rightarrow> TableColumn list \<Rightarrow> pystr list list" where
  "table_cells rows columns =
     map header columns
     # replicate (length columns) (lit ''---'')
     # map (\<lambda>row. map (render_cell row) columns) rows"

text \<open>Example: a schema of two text columns and one row.\<close>

definition item_price :: "TableColumn list" where
  "item_price =
     [\<lparr>name = lit ''item'', header = lit ''Item'', placeholder = lit ''ITEM'', type = lit ''text''\<rparr>,
      \<lparr>name = lit ''price'', header = lit ''Price'', placeholder = [], type = lit ''text''\<rparr>]"

definition tea_row :: "TableRow list" where
  "tea_row = [\<lparr>values = [(lit ''item'', lit ''Tea''), (lit ''price'', lit ''3 USD'')]\<rparr>]"

section \<open>Keyword highlighting (generators/html.py, generators/markdown.py)\<close>

text \<open>
  The pattern is \<open>re.escape(keyword)\<close> compiled with \<open>re.IGNORECASE\<close>: the keyword, matched
  character by character up to case. Which text character a pattern character matches up to
  case is fixed by the Unicode tables of the interpreter; it is the parameter \<open>ci\<close> here
  (\<open>ci p c\<close>: pattern character \<open>p\<close> matches text character \<open>c\<close>). \<open>ci_prefix\<close> says
  that the pattern matches at the start of the text.
\<close>

type_synonym ignorecase = "pychar \<Rightarrow> pychar \<Rightarrow> bool"

definition ci_prefix :: "ignorecase \<Rightarrow> pystr \<Rightarrow> pystr \<Rightarrow> bool" where
  "ci_prefix ci keyword text =
     (length keyword \<le> length text \<and> list_all2 ci keyword (take (length keyword) text))"

text \<open>
  \<open>pattern.sub(repl, text)\<close> for such a pattern: the text is scanned from the left, a match
  is replaced by \<open>repl\<close> of the matched text and the scan goes on behind the match
  (\<open>drop (length keyword - 1) cs\<close> is the text behind a match that starts at \<open>c\<close>). The
  empty keyword matches the empty string at every position.
\<close>

fun re_sub :: "ignorecase \<Rightarrow> pystr \<Rightarrow> (pystr \<Rightarrow> pystr) \<Rightarrow> pystr \<Rightarrow> pystr" where
  "re_sub ci keyword repl [] = (if keyword = [] then repl [] else [])"
| "re_sub ci keyword repl (c # cs) =
     (if keyword = [] then repl [] @ c # re_sub ci keyword repl cs
      else if ci_prefix ci keyword (c # cs)
        then repl (take (length keyword) (c # cs))
             @ re_sub ci keyword repl (drop (length keyword - 1) cs)
      else c # re_sub ci keyword repl cs)"

definition b_tag :: "pystr \<Rightarrow> pystr" where
  "b_tag m = lit ''<b>'' @ m @ lit ''</b>''"

definition bold_md :: "pystr \<Rightarrow> pystr" where
  "bold_md m = lit ''**'' @ m @ lit ''**''"

definition highlight_keywords :: "ignorecase \<Rightarrow> pystr \<Rightarrow> pystr list \<Rightarrow> pystr" where
  "highlight_keywords ci text keywords =
     (if keywords = [] then text
      else fold (\<lambda>keyword text. re_sub ci keyword b_tag text) keywords text)"

definition highlight_keywords_md :: "ignorecase \<Rightarrow> pystr \<Rightarrow> pystr list \<Rightarrow> pystr" where
  "highlight_keywords_md ci text keywords =
     (if keywords = [] then text
      else fold (\<lambda>keyword text. re_sub ci keyword bold_md text) keywords text)"

text \<open>Equality up to case on ASCII characters, for examples on ASCII text.\<close>

definition ascii_lower :: "pychar \<Rightarrow> pychar" where
  "ascii_lower c = (if 65 \<le> c \<and> c \<le> 90 then c + 32 else c)"

definition ascii_ci :: ignorecase where
  "ascii_ci p c = (ascii_lower p = ascii_lower c)"

section \<open>Text segmentation (generators/html.py, generators/markdown.py)\<close>

text \<open>
  The three buffers of \<open>text_to_html\<close> and \<open>text_to_md\<close>, the \<open>flush\<close> closures of each,
  and the body of the loop over the lines, which is the same text in both functions and
  differs in the closures it calls only.
\<close>

record seg_state =
  paragraphs :: "pystr list"
  current_list :: "pystr list"
  current_para :: "pystr list"

definition flush_para_html :: "seg_state \<Rightarrow> seg_state" where
  "flush_para_html st =
     (if current_para st \<noteq> []
      then st\<lparr>paragraphs := paragraphs st
                  @ [lit ''<p>'' @ str_join (lit '' '') (current_para st) @ lit ''</p>''],
              current_para := []\<rparr>
      else st)"

definition flush_list_html :: "seg_state \<Rightarrow> seg_state" where
  "flush_list_html st =
     (if current_list st \<noteq> []
      then st\<lparr>paragraphs := paragraphs st
                  @ [lit ''<ul>\<newline>''
                     @ str_join [10] (map (\<lambda>item. lit ''  <li>'' @ item @ lit ''</li>'') (current_list st))
                     @ lit ''\<newline></ul>''],
              current_list := []\<rparr>
      else st)"

definition flush_para_md :: "seg_state \<Rightarrow> seg_state" where
  "flush_para_md st =
     (if current_para st \<noteq> []
      then st\<lparr>paragraphs := paragraphs st @ [str_join (lit '' '') (current_para st)],
              current_para := []\<rparr>
      else st)"

definition flush_list_md :: "seg_state \<Rightarrow> seg_state" where
  "flush_list_md st =
     (if current_list st \<noteq> []
      then st\<lparr>paragraphs := paragraphs st
                  @ [str_join [10] (map (\<lambda>item. lit ''- '' @ item) (current_list st))],
              current_list := []\<rparr>
      else st)"

definition bullet_line :: "pystr \<Rightarrow> bool" where
  "bullet_line line =
     (startswith line [8226, 32] \<or> startswith line (lit ''- '') \<or> startswith line (lit ''* ''))"

definition line_step ::
  "(seg_state \<Rightarrow> seg_state) \<Rightarrow> (seg_state \<Rightarrow> seg_state) \<Rightarrow> pystr \<Rightarrow> seg_state \<Rightarrow> seg_state" where
  "line_step flush_para flush_list raw_line st =
     (let line = str_strip raw_line in
      if line = [] then flush_list (flush_para st)
      else if bullet_line line
        then (let st1 = flush_para st in st1\<lparr>current_list := current_list st1 @ [drop 2 line]\<rparr>)
      else (let st1 = flush_list st in st1\<lparr>current_para := current_para st1 @ [line]\<rparr>))"

definition text_to_html :: "ignorecase \<Rightarrow> pystr \<Rightarrow> pystr list option \<Rightarrow> pystr" where
  "text_to_html ci text keywords =
     (let text1 = str_strip text in
      if text1 = [] then []
      else
        (let st = fold (line_step flush_para_html flush_list_html) (str_split 10 text1)
                    \<lparr>paragraphs = [], current_list = [], current_para = []\<rparr>;
             st1 = flush_list_html (flush_para_html st);
             html = str_join [10] (paragraphs st1)
         in case keywords of
              None \<Rightarrow> html
            | Some ks \<Rightarrow> if ks \<noteq> [] then highlight_keywords ci html ks else html))"

definition text_to_md :: "ignorecase \<Rightarrow> pystr \<Rightarrow> pystr list option \<Rightarrow> pystr" where
  "text_to_md ci text keywords =
     (let text1 = str_strip text in
      if text1 = [] then []
      else
        (let st = fold (line_step flush_para_md flush_list_md) (str_split 10 text1)
                    \<lparr>paragraphs = [], current_list = [], current_para = []\<rparr>;
             st1 = flush_list_md (flush_para_md st);
             md = str_join [10, 10] (paragraphs st1)
         in case keywords of
              None \<Rightarrow> md
            | Some ks \<Rightarrow> if ks \<noteq> [] then highlight_keywords_md ci md ks else md))"

text \<open>
  The segmentation as the specification words it: a machine with a paragraph buffer and a
  list buffer that emits blocks, and the markup of a block in each format.
\<close>

datatype block = Paragraph pystr | Bullets "pystr list"

record spec_state =
  blocks :: "block list"
  list_buffer :: "pystr list"
  para_buffer :: "pystr list"

definition spec_flush_para :: "spec_state \<Rightarrow> spec_state" where
  "spec_flush_para s =
     (if para_buffer s = [] then s
      else s\<lparr>blocks := blocks s @ [Paragraph (str_join (lit '' '') (para_buffer s))],
             para_buffer := []\<rparr>)"

definition spec_flush_list :: "spec_state \<Rightarrow> spec_state" where
  "spec_flush_list s =
     (if list_buffer s = [] then s
      else s\<lparr>blocks := blocks s @ [Bullets (list_buffer s)], list_buffer := []\<rparr>)"

definition spec_step :: "pystr \<Rightarrow> spec_state \<Rightarrow> spec_state" where
  "spec_step raw_line s =
     (let line = str_strip raw_line in
      if line = [] then spec_flush_list (spec_flush_para s)
      else if bullet_line line
        then (spec_flush_para s)\<lparr>list_buffer := list_buffer (spec_flush_para s) @ [drop 2 line]\<rparr>
      else (spec_flush_list s)\<lparr>para_buffer := para_buffer (spec_flush_list s) @ [line]\<rparr>)"

definition spec_run :: "pystr list \<Rightarrow> spec_state" where
  "spec_run lines = fold spec_step lines \<lparr>blocks = [], list_buffer = [], para_buffer = []\<rparr>"

definition segment :: "pystr \<Rightarrow> block list" where
  "segment text =
     blocks (spec_flush_list (spec_flush_para (spec_run (str_split 10 (str_strip text)))))"

fun html_block :: "block \<Rightarrow> pystr" where
  "html_block (Paragraph p) = lit ''<p>'' @ p @ lit ''</p>''"
| "html_block (Bullets items) =
     lit ''<ul>\<newline>''
     @ str_join [10] (map (\<lambda>item. lit ''  <li>'' @ item @ lit ''</li>'') items)
     @ lit ''\<newline></ul>''"

fun md_block :: "block \<Rightarrow> pystr" where
  "md_block (Paragraph p) = p"
| "md_block (Bullets items) = str_join [10] (map (\<lambda>item. lit ''- '' @ item) items)"

text \<open>The state of the source loop that stands for a state of the machine, in a format.\<close>

definition render_state :: "(block \<Rightarrow> pystr) \<Rightarrow> spec_state \<Rightarrow> seg_state" where
  "render_state markup s =
     \<lparr>paragraphs = map markup (blocks s), current_list = list_buffer s,
      current_para = para_buffer s\<rparr>"

section \<open>Section prompts (core/models.py, generators/prompts.py, main.py)\<close>

text \<open>
  The configuration records, with the fields the section prompts read. \<open>lower\<close>, a
  parameter of the prompt builder, is \<open>str.lower\<close>, which the Unicode tables of the
  interpreter fix.
\<close>

record Section =
  heading :: pystr
  words :: int

record SEOConfig =
  primary_keyword :: pystr
  secondary_keywords :: "pystr list"
  tone :: pystr
  target_audience :: pystr

record PlaceholderConfig =
  item_prefix :: pystr
  value_prefix :: pystr

record ContentConfig =
  title :: pystr
  sections :: "Section list"
  seo :: SEOConfig
  placeholders :: PlaceholderConfig
  language :: pystr

definition headings :: "ContentConfig \<Rightarrow> pystr list" where
  "headings self = map heading (sections self)"

text \<open>\<open>needle in hay\<close> on strings.\<close>

definition str_contains :: "pystr \<Rightarrow> pystr \<Rightarrow> bool" where
  "str_contains hay needle = list_ex (\<lambda>i. startswith (drop i hay) needle) [0..<length hay + 1]"

definition perspectives :: "(int, pystr) dict" where
  "perspectives =
     [(0, lit ''Basic information and first steps for beginners''),
      (1, lit ''Practical comparison and evaluation criteria''),
      (2, lit ''Advanced tips and maximum benefit strategies''),
      (3, lit ''Common mistakes and how to avoid them''),
      (4, lit ''Future trends and things to watch out for'')]"

definition get_section_perspective :: "pystr \<Rightarrow> int \<Rightarrow> pystr" where
  "get_section_perspective hdg section_index =
     dict_get perspectives section_index (lit ''In-depth analysis and concrete examples'')"

text \<open>The local variables of \<open>build_section_prompt\<close>, and the prompt.\<close>

definition avoid_topics :: "pystr list \<Rightarrow> pystr" where
  "avoid_topics previous_topics =
     (if previous_topics \<noteq> []
      then lit ''\<newline>- DO NOT REPEAT (already covered): '' @ str_join (lit '', '') previous_topics
      else [])"

definition keyword_instruction :: "SEOConfig \<Rightarrow> pystr" where
  "keyword_instruction s =
     (if primary_keyword s \<noteq> []
      then lit ''\<newline>- Primary keyword ('' @ primary_keyword s
           @ lit ''): Use naturally once in this section''
      else [])"

definition secondary_instruction :: "(pystr \<Rightarrow> pystr) \<Rightarrow> SEOConfig \<Rightarrow> pystr \<Rightarrow> pystr" where
  "secondary_instruction lower s hdg =
     (if secondary_keywords s \<noteq> []
      then
        (let relevant_kw = filter (\<lambda>kw. str_contains (lower hdg) (lower kw)) (secondary_keywords s)
         in if relevant_kw \<noteq> []
            then lit ''\<newline>- Related keywords (use naturally): '' @ str_join (lit '', '') relevant_kw
            else [])
      else [])"

definition tone_map :: "(pystr, pystr) dict" where
  "tone_map =
     [(lit ''informative'', lit ''Informative and objective''),
      (lit ''conversational'', lit ''Friendly and conversational''),
      (lit ''professional'', lit ''Professional and formal'')]"

definition tone_desc :: "SEOConfig \<Rightarrow> pystr" where
  "tone_desc s = dict_get tone_map (tone s) (lit ''Informative'')"

definition placeholder_hint :: "PlaceholderConfig \<Rightarrow> pystr" where
  "placeholder_hint ph =
     lit ''['' @ item_prefix ph @ lit ''_NAME], ['' @ value_prefix ph @ lit ''_VALUE]''"

definition build_section_prompt ::
  "(pystr \<Rightarrow> pystr) \<Rightarrow> pystr \<Rightarrow> pystr \<Rightarrow> int \<Rightarrow> int \<Rightarrow> int \<Rightarrow> pystr list \<Rightarrow> SEOConfig
     \<Rightarrow> PlaceholderConfig \<Rightarrow> pystr \<Rightarrow> pystr" where
  \<open>build_section_prompt lower ttl hdg section_words section_index total_sections
       previous_topics s ph lang =
     lit ''Write original content about "''
     @ hdg
     @ lit ''".\<newline>\<newline>MAIN TITLE: ''
     @ ttl
     @ lit ''\<newline>SECTION: ''
     @ str_int (section_index + 1)
     @ lit ''/''
     @ str_int total_sections
     @ lit ''\<newline>PERSPECTIVE: ''
     @ get_section_perspective hdg section_index
     @ lit ''\<newline>TONE: ''
     @ tone_desc s
     @ lit ''\<newline>\<newline>CONTENT REQUIREMENTS:\<newline>- Approximately ''
     @ str_int section_words
     @ lit '' words\<newline>''
     @ lit ''- At least 1 concrete example or numerical data\<newline>''
     @ lit ''- At least 2 practical, actionable tips\<newline>''
     @ lit ''- For bullet lists use: "''
     @ [8226]
     @ lit '' "''
     @ keyword_instruction s
     @ secondary_instruction lower s hdg
     @ lit ''\<newline>- Use placeholders: ''
     @ placeholder_hint ph
     @ lit ''\<newline>\<newline>AVOID:''
     @ avoid_topics previous_topics
     @ lit ''\<newline>- DO NOT REPEAT MAIN TITLE: Don''
     @ [39]
     @ lit ''t use "''
     @ ttl
     @ lit ''" within the section\<newline>''
     @ lit ''- Generic phrases: "quality service", "reliable platform", "professional team"\<newline>''
     @ lit ''- Exaggerated claims: "the best", "absolutely", "must", "guaranteed"\<newline>''
     @ lit ''- Filler sentences: "as everyone knows", "undoubtedly"\<newline>''
     @ lit ''\<newline>''
     @ lit ''IMPORTANT: Write plain text only. Do not use HTML tags.\<newline>''
     @ lit ''\<newline>LANGUAGE: Write the content in ''
     @ lang
     @ lit ''.''\<close>

text \<open>
  The loop of \<open>generate_all_content\<close> over the sections: the task of section \<open>i\<close> is named
  \<open>section_i\<close> and its prompt is built from the configuration, with \<open>headings[:i]\<close> as
  the topics covered before.
\<close>

definition section_tasks :: "(pystr \<Rightarrow> pystr) \<Rightarrow> ContentConfig \<Rightarrow> (pystr \<times> pystr) list" where
  "section_tasks lower config =
     map (\<lambda>(i, section).
            (lit ''section_'' @ str_nat i,
             build_section_prompt lower (title config) (heading section) (words section)
               (int i) (int (length (sections config))) (take i (headings config))
               (seo config) (placeholders config) (language config)))
       (zip [0..<length (sections config)] (sections config))"

text \<open>Example: a configuration with two sections.\<close>

definition two_sections :: ContentConfig where
  "two_sections =
     \<lparr>title = lit ''Tea guide'',
      sections = [\<lparr>heading = lit ''Basics'', words = 100\<rparr>,
                  \<lparr>heading = lit ''Pricing'', words = 150\<rparr>],
      seo = \<lparr>primary_keyword = lit ''tea'', secondary_keywords = [], tone = lit ''informative'',
             target_audience = []\<rparr>,
      placeholders = \<lparr>item_prefix = lit ''ITEM'', value_prefix = lit ''VALUE''\<rparr>,
      language = lit ''English''\<rparr>"

chapter \<open>Properties\<close>

section \<open>Strings\<close>

lemmas eval_str = lit_def str_strip_def isspace_def whitespace_def

lemmas eval_int = py_int_def digit_value_def decimal_zeros_def int_max_str_digits_def

lemma dropWhile_unchanged: "xs = [] \<or> \<not> P (hd xs) \<Longrightarrow> dropWhile P xs = xs"
  by (cases xs) auto

lemma rstrip_prefix: "\<exists>u. d = rev (dropWhile P (rev d)) @ u"
proof -
  have "rev (dropWhile P (rev d)) @ rev (takeWhile P (rev d))
          = rev (takeWhile P (rev d) @ dropWhile P (rev d))"
    by (simp only: rev_append)
  also have "\<dots> = d" by simp
  finally have "d = rev (dropWhile P (rev d)) @ rev (takeWhile P (rev d))" by simp
  then show ?thesis ..
qed

lemma str_strip_idem: "str_strip (str_strip s) = str_strip s"
proof -
  define d where "d = dropWhile isspace s"
  define t where "t = rev (dropWhile isspace (rev d))"
  obtain u where du: "d = t @ u" unfolding t_def using rstrip_prefix by blast
  have "dropWhile isspace t = t"
  proof (rule dropWhile_unchanged, cases "t = []")
    case False
    then have "hd t = hd d" using du by (cases t) auto
    moreover have "d \<noteq> []" using du False by auto
    then have "\<not> isspace (hd d)" unfolding d_def by (rule hd_dropWhile)
    ultimately show "t = [] \<or> \<not> isspace (hd t)" by simp
  qed simp
  moreover have "dropWhile isspace (rev t) = rev t" by (simp add: t_def)
  ultimately show ?thesis by (simp add: str_strip_def d_def [symmetric] t_def [symmetric])
qed

section \<open>Star rendering\<close>

lemma py_int_strip: "py_int (str_strip v) = py_int v"
  by (simp add: py_int_def str_strip_idem)

lemma star_count_stars: "star_count (concat (replicate k STAR)) = k"
  by (induction k) (simp_all add: star_count_def STAR_def)

lemma py_int_examples:
  "py_int (lit '' 3 '') = Some 3" "py_int (lit ''0'') = Some 0"
  "py_int (lit ''-2'') = Some (- 2)" "py_int (lit ''+9'') = Some 9"
  "py_int (lit ''1_0'') = Some 10" "py_int (lit ''n/a'') = None"
  "py_int (lit ''4.5'') = None" "py_int [1635] = Some 3" "py_int [] = None"
  by (simp_all add: eval_str eval_int)

text \<open>
  C4. A value that \<open>int()\<close> reads as \<open>n\<close> is rendered as \<open>min(max(n, 1), 5)\<close> star glyphs
  and nothing else: \<open>n\<close> stars for \<open>1 \<le> n \<le> 5\<close>, one star for zero and negative numbers,
  five stars for numbers above five. A value \<open>int()\<close> rejects is returned unchanged.
\<close>

theorem value_to_stars_spec:
  "(py_int v = Some i \<longrightarrow>
      value_to_stars v = concat (replicate (nat (min (max i 1) 5)) STAR)
      \<and> (1 \<le> i \<and> i \<le> 5 \<longrightarrow> value_to_stars v = concat (replicate (nat i) STAR)
            \<and> int (star_count (value_to_stars v)) = i)
      \<and> (i < 1 \<longrightarrow> value_to_stars v = STAR \<and> star_count (value_to_stars v) = 1)
      \<and> (5 < i \<longrightarrow> star_count (value_to_stars v) = 5)
      \<and> 1 \<le> star_count (value_to_stars v) \<and> star_count (value_to_stars v) \<le> 5)
   \<and> (py_int v = None \<longrightarrow> value_to_stars v = v)"
proof (intro conjI impI)
  assume p: "py_int v = Some i"
  then show eq: "value_to_stars v = concat (replicate (nat (min (max i 1) 5)) STAR)"
    by (simp add: value_to_stars_def py_int_strip)
  have cnt: "star_count (value_to_stars v) = nat (min (max i 1) 5)"
    by (simp only: eq star_count_stars)
  show "1 \<le> star_count (value_to_stars v)" "star_count (value_to_stars v) \<le> 5"
    using cnt by auto
  {
    assume "1 \<le> i \<and> i \<le> 5"
    then have m: "min (max i 1) 5 = i" by auto
    show "int (star_count (value_to_stars v)) = i" using cnt m by auto
    show "value_to_stars v = concat (replicate (nat i) STAR)" using eq m by simp
  }
  {
    assume "i < 1"
    then have m: "nat (min (max i 1) 5) = 1" by auto
    show "star_count (value_to_stars v) = 1" using cnt m by simp
    show "value_to_stars v = STAR" using eq m by simp
  }
  {
    assume "5 < i"
    then show "star_count (value_to_stars v) = 5" using cnt by auto
  }
next
  assume "py_int v = None"
  then show "value_to_stars v = v" by (simp add: value_to_stars_def py_int_strip)
qed

theorem value_to_stars_spec_witness:
  "value_to_stars (lit '' 3 '') = STAR @ STAR @ STAR
   \<and> value_to_stars (lit ''0'') = STAR
   \<and> value_to_stars (lit ''-2'') = STAR
   \<and> value_to_stars (lit ''+9'') = STAR @ STAR @ STAR @ STAR @ STAR
   \<and> value_to_stars (lit ''n/a'') = lit ''n/a''"
  using value_to_stars_spec [of "lit '' 3 ''" 3] value_to_stars_spec [of "lit ''0''" 0]
    value_to_stars_spec [of "lit ''-2''" "- 2"] value_to_stars_spec [of "lit ''+9''" 9]
    value_to_stars_spec [of "lit ''n/a''" 0]
  by (simp add: py_int_examples eval_nat_numeral)

section \<open>The API client\<close>

lemma extract_ok: "extract_content (ok_response t) = Inr (JStr t)"
  by (simp add: extract_content_def ok_response_def bind_exc_def lit_def py_index_def)

lemma extract_empty:
  "extract_content (JDict []) = Inl (Exc KeyError ([39] @ lit ''choices'' @ [39]))"
  by (simp add: extract_content_def bind_exc_def)

lemma upt_MAX_RETRIES: "[0..<MAX_RETRIES] = [0, 1, 2]"
  by (simp add: MAX_RETRIES_def upt_rec)

lemma upt_3: "[0..<3] = [0, 1, 2]"
  by (simp add: upt_rec)

text \<open>
  C10. On a client whose session is absent, \<open>generate\<close> raises \<open>RuntimeError\<close> at once:
  no request is sent, no delay is awaited, and the client, the progress bar and the event
  log are as they were.
\<close>

theorem generate_without_session:
  "session (client w) = None \<Longrightarrow>
     generate prompt system_prompt net w
       = (Inl (Exc RuntimeError (lit ''Client must be used with context manager'')), w)"
  by (simp add: generate_def)

theorem generate_without_session_witness:
  "generate (lit ''p'') None (\<lambda>k. Responds (ok_response (lit ''text'')))
      \<lparr>client = OpenRouterClient_init (lit ''key'') (lit ''model'') (lit ''url''),
       pbar = Some \<lparr>total = 1, n = 0\<rparr>, events = []\<rparr>
     = (Inl (Exc RuntimeError (lit ''Client must be used with context manager'')),
        \<lparr>client = OpenRouterClient_init (lit ''key'') (lit ''model'') (lit ''url''),
         pbar = Some \<lparr>total = 1, n = 0\<rparr>, events = []\<rparr>)"
  using generate_without_session
    [of "\<lparr>client = OpenRouterClient_init (lit ''key'') (lit ''model'') (lit ''url''),
          pbar = Some \<lparr>total = 1, n = 0\<rparr>, events = []\<rparr>"]
  by (simp add: OpenRouterClient_init_def)

lemma try_body_fail:
  assumes "attempt_error (client w) answer = Some e"
  shows "\<exists>w1. try_body pl answer w = (Inl e, w1) \<and> client w1 = client w
            \<and> events w1 = events w @ attempt_posts (client w) pl"
proof (cases "session (client w) = Some \<lparr>closed = True\<rparr>")
  case True
  then show ?thesis using assms by (simp add: try_body_def attempt_error_def attempt_posts_def)
next
  case False
  show ?thesis
  proof (cases answer)
    case (Raises x)
    then show ?thesis
      using assms False by (simp add: try_body_def attempt_error_def attempt_posts_def)
  next
    case (Responds result)
    then have "extract_content result = Inl e"
      using assms False by (simp add: attempt_error_def split: sum.splits)
    then show ?thesis
      using False Responds by (simp add: try_body_def Let_def attempt_posts_def)
  qed
qed

lemma retry_loop_fail_step:
  "try_body pl (net a) w = (Inl e, w1) \<Longrightarrow>
     retry_loop (a # rest) pl net le w
       = retry_loop rest pl net (Some (except_clause e))
           (if a < MAX_RETRIES - 1
            then w1\<lparr>events := events w1 @ [Sleep (RETRY_DELAY * (a + 1))]\<rparr> else w1)"
  by simp

text \<open>
  C7. When a session is present and all three attempts of a call fail, \<open>generate\<close> raises
  one \<open>APIConnectionError\<close> whose message names the three attempts and ends with the text
  of the error recorded for the last attempt. The call awaits \<open>RETRY_DELAY * 1\<close> after the
  first attempt and \<open>RETRY_DELAY * 2\<close> after the second, and nothing after the third: the
  log of the call is the requests of the first attempt, the first delay, the requests of
  the second attempt, the second delay, the requests of the third attempt.
\<close>

theorem retries_exhausted:
  fixes prompt system_prompt
  assumes present: "session (client w) \<noteq> None"
    and fail0: "attempt_error (client w) (net 0) = Some e0"
    and fail1: "attempt_error (client w) (net 1) = Some e1"
    and fail2: "attempt_error (client w) (net 2) = Some e2"
  defines "posts \<equiv> attempt_posts (client w) (request_payload (client w) prompt system_prompt)"
  shows "fst (generate prompt system_prompt net w)
           = Inl (Exc APIConnectionError
               (lit ''API call failed after 3 attempts: '' @ exc_str (except_clause e2)))
    \<and> events (snd (generate prompt system_prompt net w))
           = events w @ posts @ [Sleep (RETRY_DELAY * 1)] @ posts @ [Sleep (RETRY_DELAY * 2)]
               @ posts
    \<and> client (snd (generate prompt system_prompt net w)) = client w"
proof -
  define pl where "pl = request_payload (client w) prompt system_prompt"
  have posts: "posts = attempt_posts (client w) pl" by (simp add: posts_def pl_def)
  obtain w1 where s1: "try_body pl (net 0) w = (Inl e0, w1)" "client w1 = client w"
      "events w1 = events w @ posts"
    using try_body_fail [OF fail0] posts by auto
  define w1' where "w1' = w1\<lparr>events := events w1 @ [Sleep 2]\<rparr>"
  have c1: "client w1' = client w" using s1 by (simp add: w1'_def)
  obtain w2 where s2: "try_body pl (net 1) w1' = (Inl e1, w2)" "client w2 = client w"
      "events w2 = events w1' @ posts"
    using try_body_fail [of w1' "net 1" e1 pl] fail1 posts c1 by auto
  define w2' where "w2' = w2\<lparr>events := events w2 @ [Sleep 4]\<rparr>"
  have c2: "client w2' = client w" using s2 by (simp add: w2'_def)
  obtain w3 where s3: "try_body pl (net 2) w2' = (Inl e2, w3)" "client w3 = client w"
      "events w3 = events w2' @ posts"
    using try_body_fail [of w2' "net 2" e2 pl] fail2 posts c2 by auto
  have "generate prompt system_prompt net w = retry_loop [0, 1, 2] pl net None w"
    using present by (simp only: generate_def upt_MAX_RETRIES pl_def if_False)
  also have "\<dots> = retry_loop [1, 2] pl net (Some (except_clause e0)) w1'"
    by (simp only: retry_loop_fail_step [of pl net 0 w e0 w1, OF s1(1)])
      (simp add: w1'_def MAX_RETRIES_def RETRY_DELAY_def)
  also have "\<dots> = retry_loop [2] pl net (Some (except_clause e1)) w2'"
    by (simp only: retry_loop_fail_step [of pl net 1 w1' e1 w2, OF s2(1)])
      (simp add: w2'_def MAX_RETRIES_def RETRY_DELAY_def)
  also have "\<dots> = retry_loop [] pl net (Some (except_clause e2)) w3"
    by (simp only: retry_loop_fail_step [of pl net 2 w2' e2 w3, OF s3(1)])
      (simp add: MAX_RETRIES_def)
  finally have g: "generate prompt system_prompt net w
      = retry_loop [] pl net (Some (except_clause e2)) w3" .
  have "fst (generate prompt system_prompt net w)
           = Inl (Exc APIConnectionError
               (lit ''API call failed after 3 attempts: '' @ exc_str (except_clause e2)))"
    by (simp add: g MAX_RETRIES_def str_last_error_def lit_def)
  moreover have "events (snd (generate prompt system_prompt net w))
      = events w @ posts @ [Sleep (RETRY_DELAY * 1)] @ posts @ [Sleep (RETRY_DELAY * 2)] @ posts"
    by (simp add: g s1 s2 s3 w1'_def w2'_def RETRY_DELAY_def)
  moreover have "client (snd (generate prompt system_prompt net w)) = client w"
    by (simp add: g s3)
  ultimately show ?thesis by simp
qed

theorem retries_exhausted_witness:
  "fst (generate (lit ''p'') None
          (\<lambda>k. if k = 2 then Responds (JDict []) else Raises (Exc ClientError (lit ''down'')))
          (opened_runtime None))
     = Inl (Exc APIConnectionError
         (lit ''API call failed after 3 attempts: Unexpected API response: ''
          @ [39] @ lit ''choices'' @ [39]))
   \<and> events (snd (generate (lit ''p'') None
          (\<lambda>k. if k = 2 then Responds (JDict []) else Raises (Exc ClientError (lit ''down'')))
          (opened_runtime None)))
     = [Post (request_payload (client (opened_runtime None)) (lit ''p'') None), Sleep 2,
        Post (request_payload (client (opened_runtime None)) (lit ''p'') None), Sleep 4,
        Post (request_payload (client (opened_runtime None)) (lit ''p'') None)]"
  using retries_exhausted [of "opened_runtime None"
      "\<lambda>k. if k = 2 then Responds (JDict []) else Raises (Exc ClientError (lit ''down''))"
      "Exc ClientError (lit ''down'')" "Exc ClientError (lit ''down'')"
      "Exc KeyError ([39] @ lit ''choices'' @ [39])" "lit ''p''" None]
  by (simp add: opened_runtime_def aenter_def OpenRouterClient_init_def attempt_error_def
      attempt_posts_def extract_empty except_clause_def RETRY_DELAY_def lit_def)

text \<open>
  C2, at its failing input. The bar is advanced as soon as the response is decoded, before
  the completion text is looked up. With responses \<open>{}\<close> to every attempt the call fails
  and has advanced the bar three times; with \<open>{}\<close> to the first attempt only, the call
  succeeds and has advanced the bar twice.
\<close>

theorem progress_counts_failed_attempts:
  "fst (generate (lit ''p'') None (\<lambda>k. Responds (JDict []))
          (opened_runtime (Some \<lparr>total = 1, n = 0\<rparr>)))
     = Inl (Exc APIConnectionError
         (lit ''API call failed after 3 attempts: Unexpected API response: ''
          @ [39] @ lit ''choices'' @ [39]))
   \<and> pbar (snd (generate (lit ''p'') None (\<lambda>k. Responds (JDict []))
          (opened_runtime (Some \<lparr>total = 1, n = 0\<rparr>))))
     = Some \<lparr>total = 1, n = 3\<rparr>
   \<and> fst (generate (lit ''p'') None
          (\<lambda>k. if k = 0 then Responds (JDict []) else Responds (ok_response (lit ''text'')))
          (opened_runtime (Some \<lparr>total = 1, n = 0\<rparr>)))
     = Inr (JStr (lit ''text''))
   \<and> pbar (snd (generate (lit ''p'') None
          (\<lambda>k. if k = 0 then Responds (JDict []) else Responds (ok_response (lit ''text'')))
          (opened_runtime (Some \<lparr>total = 1, n = 0\<rparr>))))
     = Some \<lparr>total = 1, n = 2\<rparr>"
  by (simp add: generate_def upt_3 opened_runtime_def aenter_def OpenRouterClient_init_def
      try_body_def extract_empty extract_ok tqdm_bool_def tqdm_update_def except_clause_def
      MAX_RETRIES_def str_last_error_def lit_def)

text \<open>
  After \<open>__aexit__\<close> the session is closed but still present: \<open>generate\<close> then makes
  its three attempts, each refused before a request is sent, and awaits both delays.
\<close>

lemma generate_on_closed_session:
  "generate (lit ''p'') None net (opened_runtime None\<lparr>client := aexit (client (opened_runtime None))\<rparr>)
     = (Inl (Exc APIConnectionError (lit ''API call failed after 3 attempts: Session is closed'')),
        opened_runtime None\<lparr>client := aexit (client (opened_runtime None)),
          events := [Sleep 2, Sleep 4]\<rparr>)"
  by (simp add: generate_def upt_3 opened_runtime_def aenter_def aexit_def
      OpenRouterClient_init_def try_body_def except_clause_def MAX_RETRIES_def RETRY_DELAY_def
      str_last_error_def lit_def)

subsection \<open>Batches\<close>

lemma try_body_client: "client (snd (try_body pl answer w)) = client w"
  by (cases answer) (simp_all add: try_body_def Let_def)

lemma try_body_fst: "client w = client w' \<Longrightarrow> fst (try_body pl answer w) = fst (try_body pl answer w')"
  by (cases answer) (simp_all add: try_body_def Let_def)

lemma retry_loop_client: "client (snd (retry_loop as pl net le w)) = client w"
proof (induction as arbitrary: le w)
  case Nil
  show ?case by simp
next
  case (Cons a as)
  obtain r w1 where t: "try_body pl (net a) w = (r, w1)" by (cases "try_body pl (net a) w")
  have c: "client w1 = client w" using try_body_client [of pl "net a" w] t by simp
  show ?case
  proof (cases r)
    case (Inl e)
    then show ?thesis using t c Cons.IH by simp
  next
    case (Inr v)
    then show ?thesis using t c by simp
  qed
qed

lemma retry_loop_fst:
  "client w = client w' \<Longrightarrow> fst (retry_loop as pl net le w) = fst (retry_loop as pl net le w')"
proof (induction as arbitrary: le w w')
  case Nil
  show ?case by simp
next
  case (Cons a as)
  obtain r w1 where t: "try_body pl (net a) w = (r, w1)" by (cases "try_body pl (net a) w")
  obtain r' w1' where t': "try_body pl (net a) w' = (r', w1')" by (cases "try_body pl (net a) w'")
  have rr: "r' = r" using try_body_fst [OF Cons.prems, of pl "net a"] t t' by simp
  have c: "client w1 = client w1'"
    using try_body_client [of pl "net a" w] try_body_client [of pl "net a" w'] t t' Cons.prems by simp
  show ?case
  proof (cases r)
    case (Inl e)
    have "fst (retry_loop as pl net (Some (except_clause e))
            (if a < MAX_RETRIES - 1 then w1\<lparr>events := events w1 @ [Sleep (RETRY_DELAY * (a + 1))]\<rparr> else w1))
        = fst (retry_loop as pl net (Some (except_clause e))
            (if a < MAX_RETRIES - 1 then w1'\<lparr>events := events w1' @ [Sleep (RETRY_DELAY * (a + 1))]\<rparr> else w1'))"
      by (rule Cons.IH) (simp add: c)
    then show ?thesis using t t' rr Inl by simp
  next
    case (Inr v)
    then show ?thesis using t t' rr by simp
  qed
qed

lemma generate_client: "client (snd (generate prompt sp net w)) = client w"
  by (simp add: generate_def retry_loop_client)

lemma generate_fst:
  "client w = client w' \<Longrightarrow> fst (generate prompt sp net w) = fst (generate prompt sp net w')"
  using retry_loop_fst [of w w'] by (simp add: generate_def)

lemma task_result_cong: "client w = client w' \<Longrightarrow> task_result w nets i t = task_result w' nets i t"
  using generate_fst [of w w'] by (simp add: task_result_def)

lemma gather_results:
  "fst (gather its nets w) = map (\<lambda>(i, task). task_result w nets i task) its"
proof (induction its arbitrary: w)
  case Nil
  show ?case by simp
next
  case (Cons it its)
  obtain i nm prompt where it: "it = (i, nm, prompt)" by (cases it)
  obtain r w1 where g: "generate prompt None (nets i) w = (r, w1)"
    by (cases "generate prompt None (nets i) w")
  have c: "client w1 = client w" using generate_client [of prompt None "nets i" w] g by simp
  obtain items w2 where gg: "gather its nets w1 = (items, w2)" by (cases "gather its nets w1")
  have "items = map (\<lambda>(i, task). task_result w1 nets i task) its"
    using Cons.IH [of w1] gg by simp
  also have "\<dots> = map (\<lambda>(i, task). task_result w nets i task) its"
    using task_result_cong [OF c] by simp
  finally show ?case using it g gg by (cases r) (simp_all add: task_result_def)
qed

lemma gather_client: "client (snd (gather its nets w)) = client w"
proof (induction its arbitrary: w)
  case Nil
  show ?case by simp
next
  case (Cons it its)
  obtain i nm prompt where it: "it = (i, nm, prompt)" by (cases it)
  obtain r w1 where g: "generate prompt None (nets i) w = (r, w1)"
    by (cases "generate prompt None (nets i) w")
  have c: "client w1 = client w" using generate_client [of prompt None "nets i" w] g by simp
  obtain items w2 where gg: "gather its nets w1 = (items, w2)" by (cases "gather its nets w1")
  show ?case using it g gg c Cons.IH [of w1] by simp
qed

lemma generate_batch_fst:
  "fst (generate_batch tasks nets w) = collect (task_results w nets tasks) []"
proof -
  obtain results w1 where g: "gather (zip [0..<length tasks] tasks) nets w = (results, w1)"
    by (cases "gather (zip [0..<length tasks] tasks) nets w")
  then show ?thesis
    using gather_results [of "zip [0..<length tasks] tasks" nets w]
    by (simp add: generate_batch_def task_results_def)
qed

lemma collect_first_failure:
  "\<lbrakk>i < length results; results ! i = Inl e; \<forall>j<i. \<not> isl (results ! j)\<rbrakk>
     \<Longrightarrow> collect results out = Inl e"
proof (induction results out arbitrary: i rule: collect.induct)
  case (1 acc)
  then show ?case by simp
next
  case (2 e' items acc)
  then show ?case by (cases i) auto
next
  case (3 nm content items acc)
  then obtain k where k: "i = Suc k" by (cases i) auto
  have "collect items (dict_set acc nm content) = Inl e"
    using 3 k by (intro "3.IH" [of k]) auto
  then show ?case by simp
qed

lemma map_of_dict_set: "map_of (dict_set d k v) = (map_of d)(k \<mapsto> v)"
  by (induction d) (auto simp: fun_eq_iff)

lemma dict_set_fresh: "k \<notin> fst ` set d \<Longrightarrow> dict_set d k v = d @ [(k, v)]"
  by (induction d) auto

lemma collect_all_ok:
  "\<forall>r\<in>set results. \<not> isl r \<Longrightarrow>
     \<exists>d. collect results out = Inr d
       \<and> map_of d = map_of (rev (map projr results) @ out)
       \<and> (distinct (map fst (out @ map projr results)) \<longrightarrow> d = out @ map projr results)"
proof (induction results out rule: collect.induct)
  case (1 acc)
  then show ?case by simp
next
  case (2 e' items acc)
  then show ?case by simp
next
  case (3 nm content items acc)
  then obtain d where d: "collect items (dict_set acc nm content) = Inr d"
      "map_of d = map_of (rev (map projr items) @ dict_set acc nm content)"
      "distinct (map fst (dict_set acc nm content @ map projr items))
         \<longrightarrow> d = dict_set acc nm content @ map projr items"
    by auto
  have "map_of d = map_of (rev (map projr (Inr (nm, content) # items)) @ acc)"
    by (simp add: d(2) map_of_dict_set map_add_def fun_eq_iff split: option.splits)
  moreover have "distinct (map fst (acc @ map projr (Inr (nm, content) # items)))
      \<longrightarrow> d = acc @ map projr (Inr (nm, content) # items)"
  proof
    assume dist: "distinct (map fst (acc @ map projr (Inr (nm, content) # items)))"
    then have fresh: "nm \<notin> fst ` set acc" by auto
    then have ds: "dict_set acc nm content = acc @ [(nm, content)]" by (rule dict_set_fresh)
    have "distinct (map fst (dict_set acc nm content @ map projr items))"
      using dist by (simp add: ds)
    then show "d = acc @ map projr (Inr (nm, content) # items)" using d(3) ds by simp
  qed
  ultimately show ?case using d(1) by simp
qed



lemma collect_some_failure: "\<exists>r\<in>set results. isl r \<Longrightarrow> isl (collect results acc)"
  by (induction results acc rule: collect.induct) auto

lemma task_result_name: "\<not> isl (task_result w nets i t) \<Longrightarrow> fst (projr (task_result w nets i t)) = fst t"
  by (simp add: task_result_def split: sum.splits)

lemma length_task_results: "length (task_results w nets tasks) = length tasks"
  by (simp add: task_results_def)

lemma task_results_names:
  assumes "\<forall>r\<in>set (task_results w nets tasks). \<not> isl r"
  shows "map fst (map projr (task_results w nets tasks)) = map fst tasks"
proof (rule nth_equalityI)
  show "length (map fst (map projr (task_results w nets tasks))) = length (map fst tasks)"
    by (simp add: length_task_results)
next
  fix i
  assume "i < length (map fst (map projr (task_results w nets tasks)))"
  then have i: "i < length tasks" by (simp add: length_task_results)
  then have eq: "task_results w nets tasks ! i = task_result w nets i (tasks ! i)"
    by (simp add: task_results_def)
  have "\<not> isl (task_results w nets tasks ! i)"
    using assms i by (simp add: length_task_results)
  then show "map fst (map projr (task_results w nets tasks)) ! i = map fst tasks ! i"
    using i eq task_result_name [of w nets i "tasks ! i"] by (simp add: length_task_results)
qed

text \<open>
  C3. \<open>generate_batch\<close> is all or nothing. If some task fails, the batch raises the error
  of the first failed task in task order and returns no mapping, whatever the other tasks
  produced. If no task fails, it returns a mapping whose keys are the task names, each name
  bound to the content of the last task with that name; when the names are distinct (as
  they are within a batch) this is one entry per task, in task order.
\<close>

theorem generate_batch_all_or_nothing:
  "(\<forall>i<length tasks. \<forall>e.
        task_results w nets tasks ! i = Inl e
        \<and> (\<forall>j<i. \<not> isl (task_results w nets tasks ! j))
        \<longrightarrow> fst (generate_batch tasks nets w) = Inl e)
   \<and> ((\<exists>r\<in>set (task_results w nets tasks). isl r)
        \<longrightarrow> isl (fst (generate_batch tasks nets w)))
   \<and> ((\<forall>r\<in>set (task_results w nets tasks). \<not> isl r) \<longrightarrow>
        (\<exists>d. fst (generate_batch tasks nets w) = Inr d
           \<and> map_of d = map_of (rev (map projr (task_results w nets tasks)))
           \<and> fst ` set d = fst ` set tasks
           \<and> (distinct (map fst tasks) \<longrightarrow>
                d = map projr (task_results w nets tasks)
                \<and> map fst d = map fst tasks \<and> length d = length tasks)))"
proof (intro conjI allI impI)
  fix i e
  assume "i < length tasks"
    and "task_results w nets tasks ! i = Inl e \<and> (\<forall>j<i. \<not> isl (task_results w nets tasks ! j))"
  then show "fst (generate_batch tasks nets w) = Inl e"
    using collect_first_failure [of i "task_results w nets tasks" e "[]"]
    by (simp add: generate_batch_fst length_task_results)
next
  assume "\<exists>r\<in>set (task_results w nets tasks). isl r"
  then show "isl (fst (generate_batch tasks nets w))"
    by (simp only: generate_batch_fst collect_some_failure)
next
  assume ok: "\<forall>r\<in>set (task_results w nets tasks). \<not> isl r"
  let ?rs = "task_results w nets tasks"
  obtain d where d: "collect ?rs [] = Inr d" "map_of d = map_of (rev (map projr ?rs) @ [])"
      "distinct (map fst ([] @ map projr ?rs)) \<longrightarrow> d = [] @ map projr ?rs"
    using collect_all_ok [OF ok, of "[]"] by blast
  have names: "map fst (map projr ?rs) = map fst tasks" using ok by (rule task_results_names)
  have "dom (map_of d) = fst ` set tasks"
  proof -
    have "dom (map_of d) = fst ` set (rev (map projr ?rs))" using d(2) by (simp add: dom_map_of_conv_image_fst)
    also have "\<dots> = set (map fst (map projr ?rs))" by (simp add: image_image)
    also have "\<dots> = fst ` set tasks" by (simp only: names) simp
    finally show ?thesis .
  qed
  then have keys: "fst ` set d = fst ` set tasks" by (simp add: dom_map_of_conv_image_fst)
  have dist: "distinct (map fst tasks) \<longrightarrow>
      d = map projr ?rs \<and> map fst d = map fst tasks \<and> length d = length tasks"
  proof
    assume "distinct (map fst tasks)"
    then have "d = map projr ?rs" using d(3) names by simp
    then show "d = map projr ?rs \<and> map fst d = map fst tasks \<and> length d = length tasks"
      using names by (simp add: length_task_results)
  qed
  show "\<exists>d. fst (generate_batch tasks nets w) = Inr d
           \<and> map_of d = map_of (rev (map projr ?rs))
           \<and> fst ` set d = fst ` set tasks
           \<and> (distinct (map fst tasks) \<longrightarrow>
                d = map projr ?rs \<and> map fst d = map fst tasks \<and> length d = length tasks)"
  proof (intro exI [of _ d] conjI)
    show "fst (generate_batch tasks nets w) = Inr d" using d(1) by (simp add: generate_batch_fst)
    show "map_of d = map_of (rev (map projr ?rs))" using d(2) by simp
    show "fst ` set d = fst ` set tasks" by (rule keys)
    show "distinct (map fst tasks) \<longrightarrow>
        d = map projr ?rs \<and> map fst d = map fst tasks \<and> length d = length tasks"
      by (rule dist)
  qed
qed

lemmas eval_client = generate_def upt_3 opened_runtime_def aenter_def OpenRouterClient_init_def
  try_body_def extract_empty extract_ok tqdm_bool_def tqdm_update_def except_clause_def
  MAX_RETRIES_def str_last_error_def

lemma task_results_second_down:
  "task_results (opened_runtime None) second_down three_tasks
     = [Inr (lit ''intro'', JStr (lit ''text'')),
        Inl (Exc APIConnectionError (lit ''API call failed after 3 attempts: Connection error: down'')),
        Inr (lit ''conclusion'', JStr (lit ''text''))]"
  by (simp add: task_results_def task_result_def three_tasks_def second_down_def upt_3 eval_client lit_def)

lemma task_results_all_up:
  "task_results (opened_runtime None) all_up three_tasks
     = [Inr (lit ''intro'', JStr (lit ''text'')),
        Inr (lit ''section_0'', JStr (lit ''text'')),
        Inr (lit ''conclusion'', JStr (lit ''text''))]"
  by (simp add: task_results_def task_result_def three_tasks_def all_up_def upt_3 eval_client lit_def)

theorem generate_batch_all_or_nothing_witness:
  "\<not> isl (task_results (opened_runtime None) second_down three_tasks ! 0)
   \<and> \<not> isl (task_results (opened_runtime None) second_down three_tasks ! 2)
   \<and> fst (generate_batch three_tasks second_down (opened_runtime None))
       = Inl (Exc APIConnectionError
           (lit ''API call failed after 3 attempts: Connection error: down''))
   \<and> fst (generate_batch three_tasks all_up (opened_runtime None))
       = Inr [(lit ''intro'', JStr (lit ''text'')), (lit ''section_0'', JStr (lit ''text'')),
              (lit ''conclusion'', JStr (lit ''text''))]"
proof -
  note down = generate_batch_all_or_nothing [of three_tasks "opened_runtime None" second_down]
  note up = generate_batch_all_or_nothing [of three_tasks "opened_runtime None" all_up]
  have len: "length three_tasks = 3" by (simp add: three_tasks_def)
  have names: "distinct (map fst three_tasks)" by (simp add: three_tasks_def lit_def)
  have "fst (generate_batch three_tasks second_down (opened_runtime None))
       = Inl (Exc APIConnectionError
           (lit ''API call failed after 3 attempts: Connection error: down''))"
    using down [THEN conjunct1, rule_format, of 1]
    by (simp add: task_results_second_down len)
  moreover have "fst (generate_batch three_tasks all_up (opened_runtime None))
       = Inr [(lit ''intro'', JStr (lit ''text'')), (lit ''section_0'', JStr (lit ''text'')),
              (lit ''conclusion'', JStr (lit ''text''))]"
    using up [THEN conjunct2, THEN conjunct2]
    by (auto simp add: task_results_all_up names)
  ultimately show ?thesis by (simp add: task_results_second_down)
qed

section \<open>Tables\<close>

lemma fold_parse_line:
  "fold (parse_line cols) ls acc
     = acc @ map (\<lambda>l. \<lparr>values = row_values 0 cols (line_fields l) []\<rparr>)
         (filter (\<lambda>l. l \<noteq> [] \<and> 124 \<in> set l \<and> length cols \<le> length (line_fields l))
            (map str_strip ls))"
  by (induction ls arbitrary: acc) (simp_all add: parse_line_def Let_def)

lemma row_values_take:
  "i + length cols \<le> length parts \<Longrightarrow>
     row_values i cols (take (i + length cols) parts) vals = row_values i cols parts vals"
proof (induction cols arbitrary: i vals)
  case Nil
  show ?case by simp
next
  case (Cons c cols)
  have "row_values (i + 1) cols (take (i + 1 + length cols) parts) (dict_set vals (name c) (parts ! i))
      = row_values (i + 1) cols parts (dict_set vals (name c) (parts ! i))"
    using Cons.prems by (intro Cons.IH) simp
  then show ?case using Cons.prems by (simp add: add.commute)
qed

lemma row_values_map_of:
  "i + length cols \<le> length parts \<Longrightarrow>
     map_of (row_values i cols parts vals)
       = map_of (rev (zip (map name cols) (drop i parts)) @ vals)"
proof (induction cols arbitrary: i vals)
  case Nil
  show ?case by simp
next
  case (Cons c cols)
  have d: "drop i parts = parts ! i # drop (Suc i) parts"
    using Cons.prems by (simp add: Cons_nth_drop_Suc)
  have "map_of (row_values (i + 1) cols parts (dict_set vals (name c) (parts ! i)))
      = map_of (rev (zip (map name cols) (drop (i + 1) parts)) @ dict_set vals (name c) (parts ! i))"
    using Cons.prems by (intro Cons.IH) simp
  then show ?case using Cons.prems
    by (simp add: d map_of_dict_set map_add_def fun_eq_iff split: option.splits)
qed

lemma row_values_distinct:
  "\<lbrakk>i + length cols \<le> length parts; distinct (map name cols);
    fst ` set vals \<inter> set (map name cols) = {}\<rbrakk> \<Longrightarrow>
     row_values i cols parts vals = vals @ zip (map name cols) (drop i parts)"
proof (induction cols arbitrary: i vals)
  case Nil
  show ?case by simp
next
  case (Cons c cols)
  have d: "drop i parts = parts ! i # drop (Suc i) parts"
    using Cons.prems by (simp add: Cons_nth_drop_Suc)
  have fresh: "name c \<notin> fst ` set vals" using Cons.prems(3) by auto
  have ds: "dict_set vals (name c) (parts ! i) = vals @ [(name c, parts ! i)]"
    using fresh by (rule dict_set_fresh)
  have "row_values (i + 1) cols parts (vals @ [(name c, parts ! i)])
      = (vals @ [(name c, parts ! i)]) @ zip (map name cols) (drop (i + 1) parts)"
    using Cons.prems by (intro Cons.IH) auto
  then show ?case using Cons.prems by (simp add: d ds)
qed

lemma zip_take_left: "zip xs (take (length xs) ys) = zip xs ys"
proof (induction xs arbitrary: ys)
  case Nil
  show ?case by simp
next
  case (Cons x xs)
  then show ?case by (cases ys) simp_all
qed

text \<open>
  C6. \<open>parse_table_data\<close> returns one row for each stripped line that is not empty,
  contains the separator and splits into at least as many trimmed fields as there are
  columns; every other line is dropped and nothing is raised. A row is built from the first
  \<open>N\<close> fields only (\<open>N\<close> the number of columns): field \<open>i\<close> goes to column \<open>i\<close>, the
  last column of a name winning where a name is repeated, and with distinct names the row
  is exactly the column names paired with the first \<open>N\<close> fields.
\<close>

theorem parse_table_data_filter:
  "parse_table_data raw_data columns
     = map (\<lambda>line. \<lparr>values = row_values 0 columns (line_fields line) []\<rparr>)
         (filter (\<lambda>line. line \<noteq> [] \<and> 124 \<in> set line \<and> length columns \<le> length (line_fields line))
            (map str_strip (str_split 10 (str_strip raw_data))))
   \<and> (length columns \<le> length parts \<longrightarrow>
         row_values 0 columns parts [] = row_values 0 columns (take (length columns) parts) []
         \<and> map_of (row_values 0 columns parts [])
             = map_of (rev (zip (map name columns) (take (length columns) parts)))
         \<and> (distinct (map name columns) \<longrightarrow>
               row_values 0 columns parts []
                 = zip (map name columns) (take (length columns) parts)))"
proof (intro conjI impI)
  show "parse_table_data raw_data columns
     = map (\<lambda>line. \<lparr>values = row_values 0 columns (line_fields line) []\<rparr>)
         (filter (\<lambda>line. line \<noteq> [] \<and> 124 \<in> set line \<and> length columns \<le> length (line_fields line))
            (map str_strip (str_split 10 (str_strip raw_data))))"
    by (simp add: parse_table_data_def fold_parse_line)
next
  assume len: "length columns \<le> length parts"
  show "row_values 0 columns parts [] = row_values 0 columns (take (length columns) parts) []"
    using row_values_take [of 0 columns parts "[]"] len by simp
  have z: "zip (map name columns) parts = zip (map name columns) (take (length columns) parts)"
    using zip_take_left [of "map name columns" parts] by simp
  show "map_of (row_values 0 columns parts [])
      = map_of (rev (zip (map name columns) (take (length columns) parts)))"
    using row_values_map_of [of 0 columns parts "[]"] len z by simp
  assume "distinct (map name columns)"
  then show "row_values 0 columns parts [] = zip (map name columns) (take (length columns) parts)"
    using row_values_distinct [of 0 columns parts "[]"] len z by simp
qed

theorem parse_table_data_filter_witness:
  "parse_table_data (lit ''Tea | 3 | x\<newline>short\<newline>  Mate|4  '') item_price
     = [\<lparr>values = [(lit ''item'', lit ''Tea''), (lit ''price'', lit ''3'')]\<rparr>,
        \<lparr>values = [(lit ''item'', lit ''Mate''), (lit ''price'', lit ''4'')]\<rparr>]"
proof -
  have names: "distinct (map name item_price)" "length item_price = 2"
    by (simp_all add: item_price_def lit_def)
  have lines: "map str_strip (str_split 10 (str_strip (lit ''Tea | 3 | x\<newline>short\<newline>  Mate|4  '')))
      = [lit ''Tea | 3 | x'', lit ''short'', lit ''Mate|4'']"
    by (simp add: eval_str)
  have f: "line_fields (lit ''Tea | 3 | x'') = [lit ''Tea'', lit ''3'', lit ''x'']"
      "line_fields (lit ''short'') = [lit ''short'']"
      "line_fields (lit ''Mate|4'') = [lit ''Mate'', lit ''4'']"
    by (simp_all add: line_fields_def eval_str)
  have r1: "row_values 0 item_price [lit ''Tea'', lit ''3'', lit ''x''] []
      = [(lit ''item'', lit ''Tea''), (lit ''price'', lit ''3'')]"
    using parse_table_data_filter [of "[]" item_price "[lit ''Tea'', lit ''3'', lit ''x'']"] names
    by (simp add: item_price_def)
  have r2: "row_values 0 item_price [lit ''Mate'', lit ''4''] []
      = [(lit ''item'', lit ''Mate''), (lit ''price'', lit ''4'')]"
    using parse_table_data_filter [of "[]" item_price "[lit ''Mate'', lit ''4'']"] names
    by (simp add: item_price_def)
  show ?thesis
    using parse_table_data_filter [of "lit ''Tea | 3 | x\<newline>short\<newline>  Mate|4  ''" item_price "[]"]
    by (simp add: lines f r1 r2 names) (simp add: lit_def)
qed


lemma str_split_nonempty: "str_split c s \<noteq> []"
  by (induction s) (auto split: list.splits)

lemma str_split_no_sep: "c \<notin> set x \<Longrightarrow> str_split c x = [x]"
  by (induction x) auto

lemma str_split_append: "c \<notin> set x \<Longrightarrow> str_split c (x @ c # rest) = x # str_split c rest"
  by (induction x) (auto split: list.splits simp: str_split_nonempty)

lemma str_split_join:
  "xs \<noteq> [] \<Longrightarrow> \<forall>x\<in>set xs. c \<notin> set x \<Longrightarrow> str_split c (str_join [c] xs) = xs"
  by (induction "[c]" xs rule: str_join.induct) (simp_all add: str_split_no_sep str_split_append)

lemma set_str_join: "set (str_join sep xs) \<subseteq> set sep \<union> \<Union> (set ` set xs)"
  by (induction sep xs rule: str_join.induct) auto

lemma pad_join:
  "cells \<noteq> [] \<Longrightarrow>
     str_join [124] (map (\<lambda>v. 32 # v @ [32]) cells @ [[]])
       = 32 # str_join [32, 124, 32] cells @ [32, 124]"
  by (induction "[32::nat, 124, 32]" cells rule: str_join.induct) simp_all

lemma md_line_join:
  "cells \<noteq> [] \<Longrightarrow> md_line cells = str_join [124] ([] # map (\<lambda>v. 32 # v @ [32]) cells @ [[]])"
proof -
  assume ne: "cells \<noteq> []"
  then obtain c cs where "map (\<lambda>v. 32 # v @ [32]) cells @ [[]] = c # cs" by (cases cells) auto
  then have "str_join [124] ([] # map (\<lambda>v. 32 # v @ [32]) cells @ [[]])
      = 124 # str_join [124] (map (\<lambda>v. 32 # v @ [32]) cells @ [[]])"
    by simp
  then show ?thesis using pad_join [OF ne] by (simp add: md_line_def lit_def)
qed

lemma isspace_32: "isspace 32"
  by (simp add: isspace_def whitespace_def)

lemma not_isspace_124: "\<not> isspace 124"
  by (simp add: isspace_def whitespace_def)

lemma str_strip_snoc_space: "isspace c \<Longrightarrow> str_strip (s @ [c]) = str_strip s"
proof (cases "\<forall>x\<in>set s. isspace x")
  case True
  assume c: "isspace c"
  have a: "dropWhile isspace s = []" using True by simp
  have b: "dropWhile isspace (s @ [c]) = []" using True c by simp
  show ?thesis unfolding str_strip_def a b by simp
next
  case False
  assume c: "isspace c"
  obtain x where "x \<in> set s" "\<not> isspace x" using False by blast
  then have a: "dropWhile isspace (s @ [c]) = dropWhile isspace s @ [c]"
    by (rule dropWhile_append1)
  show ?thesis unfolding str_strip_def a using c by simp
qed

lemma str_strip_Nil: "str_strip [] = []"
  by (simp add: str_strip_def)

lemma str_strip_pad: "str_strip (32 # v @ [32]) = str_strip v"
proof -
  have "str_strip (32 # v @ [32]) = str_strip ((32 # v) @ [32])" by simp
  also have "\<dots> = str_strip (32 # v)" using isspace_32 by (rule str_strip_snoc_space)
  also have "\<dots> = str_strip v" using isspace_32 by (simp add: str_strip_def)
  finally show ?thesis .
qed

lemma fields_md_line:
  assumes "cells \<noteq> []" "\<forall>v\<in>set cells. 124 \<notin> set v"
  shows "line_fields (md_line cells) = [] # map str_strip cells @ [[]]"
proof -
  have "str_split 124 (md_line cells) = [] # map (\<lambda>v. 32 # v @ [32]) cells @ [[]]"
    using assms by (simp only: md_line_join [OF assms(1)]) (rule str_split_join, auto)
  then show ?thesis by (simp add: line_fields_def str_strip_pad str_strip_Nil)
qed

lemma str_strip_id: "\<lbrakk>s \<noteq> []; \<not> isspace (hd s); \<not> isspace (last s)\<rbrakk> \<Longrightarrow> str_strip s = s"
proof -
  assume a: "s \<noteq> []" "\<not> isspace (hd s)" "\<not> isspace (last s)"
  have "dropWhile isspace s = s" using a by (cases s) auto
  moreover have "dropWhile isspace (rev s) = rev s" using a by (cases "rev s") (auto simp: last_rev [symmetric] hd_rev)
  ultimately show ?thesis by (simp add: str_strip_def)
qed

lemma md_line_ends: "md_line cells \<noteq> [] \<and> hd (md_line cells) = 124 \<and> last (md_line cells) = 124"
  by (simp add: md_line_def lit_def)

lemma md_line_strip: "str_strip (md_line cells) = md_line cells"
  using md_line_ends [of cells] by (intro str_strip_id) (simp_all add: not_isspace_124)

lemma md_line_no_newline: "\<forall>v\<in>set cells. 10 \<notin> set v \<Longrightarrow> 10 \<notin> set (md_line cells)"
  using set_str_join [of "lit '' | ''" cells] by (auto simp: md_line_def lit_def)

lemma md_line_has_pipe: "124 \<in> set (md_line cells)"
  by (simp add: md_line_def lit_def)


lemma plain_value_to_stars: "plain v \<Longrightarrow> plain (value_to_stars v)"
  by (auto simp: plain_def value_to_stars_def STAR_def split: option.splits)

lemma plain_render_cell: "plain (TableRow_get r (name c) []) \<Longrightarrow> plain (render_cell r c)"
  by (simp add: render_cell_def Let_def plain_value_to_stars)

lemma table_cells_plain:
  assumes "columns \<noteq> []" "\<forall>c\<in>set columns. plain (header c)"
    "\<forall>r\<in>set rows. \<forall>c\<in>set columns. plain (TableRow_get r (name c) [])"
    "cells \<in> set (table_cells rows columns)"
  shows "cells \<noteq> [] \<and> length cells = length columns \<and> (\<forall>v\<in>set cells. plain v)"
proof -
  consider "cells = map header columns" | "cells = replicate (length columns) (lit ''---'')"
    | r where "r \<in> set rows" "cells = map (render_cell r) columns"
    using assms(4) by (auto simp: table_cells_def)
  then show ?thesis
  proof cases
    case 1
    then show ?thesis using assms(1,2) by auto
  next
    case 2
    then show ?thesis using assms(1) by (auto simp: plain_def lit_def)
  next
    case 3
    then show ?thesis using assms(1,3) by (auto simp: plain_render_cell)
  qed
qed

lemma build_table_md_lines:
  "rows \<noteq> [] \<Longrightarrow> columns \<noteq> [] \<Longrightarrow>
     build_table_md rows columns = str_join [10] (map md_line (table_cells rows columns))"
  by (simp add: build_table_md_def table_cells_def comp_def)

lemma str_join_ends:
  "xs \<noteq> [] \<Longrightarrow> \<forall>x\<in>set xs. x \<noteq> [] \<Longrightarrow>
     str_join sep xs \<noteq> [] \<and> hd (str_join sep xs) = hd (hd xs)
       \<and> last (str_join sep xs) = last (last xs)"
  by (induction sep xs rule: str_join.induct) auto

lemma reparse_lines:
  assumes cols: "columns \<noteq> []"
    and cells: "\<forall>cells\<in>set css. cells \<noteq> [] \<and> length cells = length columns \<and> (\<forall>v\<in>set cells. plain v)"
    and ne: "css \<noteq> []"
  shows "parse_table_data (str_join [10] (map md_line css)) columns
           = map (\<lambda>cells. \<lparr>values = row_values 0 columns ([] # map str_strip cells @ [[]]) []\<rparr>) css"
proof -
  let ?L = "map md_line css"
  have L_ne: "?L \<noteq> []" using ne by simp
  have each_ne: "\<forall>l\<in>set ?L. l \<noteq> []" using md_line_ends by auto
  have ends: "str_join [10] ?L \<noteq> [] \<and> hd (str_join [10] ?L) = hd (hd ?L)
      \<and> last (str_join [10] ?L) = last (last ?L)"
    using L_ne each_ne by (rule str_join_ends)
  have "hd ?L \<in> set ?L" "last ?L \<in> set ?L" using L_ne by (simp_all del: set_map)
  then have "hd (hd ?L) = 124" "last (last ?L) = 124" using md_line_ends by auto
  then have strip: "str_strip (str_join [10] ?L) = str_join [10] ?L"
    using ends by (intro str_strip_id) (simp_all add: not_isspace_124)
  have "\<forall>l\<in>set ?L. 10 \<notin> set l"
    using cells by (auto simp: plain_def intro!: md_line_no_newline)
  then have split: "str_split 10 (str_join [10] ?L) = ?L"
    using L_ne by (intro str_split_join) auto
  have strip_lines: "map str_strip ?L = ?L" by (simp add: md_line_strip)
  have fld: "\<forall>cells\<in>set css. line_fields (md_line cells) = [] # map str_strip cells @ [[]]"
    using cells by (auto simp: plain_def intro!: fields_md_line)
  have keep: "filter (\<lambda>l. l \<noteq> [] \<and> 124 \<in> set l \<and> length columns \<le> length (line_fields l)) ?L = ?L"
  proof (rule filter_True, intro ballI)
    fix l
    assume "l \<in> set ?L"
    then obtain cs where cs: "cs \<in> set css" "l = md_line cs" by auto
    then have "length (line_fields l) = length columns + 2" using fld cells by simp
    then show "l \<noteq> [] \<and> 124 \<in> set l \<and> length columns \<le> length (line_fields l)"
      using cs md_line_ends [of cs] md_line_has_pipe [of cs] by simp
  qed
  have "parse_table_data (str_join [10] ?L) columns
      = map (\<lambda>l. \<lparr>values = row_values 0 columns (line_fields l) []\<rparr>) ?L"
    by (simp only: parse_table_data_def strip split fold_parse_line strip_lines keep append_Nil)
  also have "\<dots> = map (\<lambda>cells. \<lparr>values = row_values 0 columns ([] # map str_strip cells @ [[]]) []\<rparr>) css"
    using fld by (simp add: comp_def)
  finally show ?thesis .
qed


lemma TableRow_get_zip:
  "\<lbrakk>distinct ks; length ks \<le> length vs; k < length ks\<rbrakk>
     \<Longrightarrow> TableRow_get \<lparr>values = zip ks (take (length ks) vs)\<rparr> (ks ! k) dflt = vs ! k"
  using map_of_zip_nth [of ks "take (length ks) vs" k]
  by (simp add: TableRow_get_def dict_get_def)

text \<open>
  C1, as amended. For rows and columns that are not empty, whose headers and cell values
  hold no separator and no newline, parsing the Markdown table that \<open>build_table_md\<close>
  builds gives two rows more than were rendered: one for the header line, one for the
  separator line, then one for each original row. Each line starts and ends with a
  separator, so its fields are an empty field, the trimmed cells, and an empty field: with
  distinct column names, the parsed row of original row \<open>j\<close> holds the empty string in the
  first column and, in column \<open>k + 1\<close>, the trimmed rendered cell of column \<open>k\<close> (for a
  column that is not of type stars, the trimmed original value). The value of the last
  column is not among the parsed values.
\<close>

theorem markdown_table_reparse:
  assumes "rows \<noteq> []" and "columns \<noteq> []"
    and "\<forall>c\<in>set columns. plain (header c)"
    and "\<forall>r\<in>set rows. \<forall>c\<in>set columns. plain (TableRow_get r (name c) [])"
  shows "parse_table_data (build_table_md rows columns) columns
           = map (\<lambda>cells. \<lparr>values = row_values 0 columns ([] # map str_strip cells @ [[]]) []\<rparr>)
               (table_cells rows columns)
    \<and> length (parse_table_data (build_table_md rows columns) columns) = length rows + 2
    \<and> (distinct (map name columns) \<longrightarrow>
          (\<forall>j<length rows. \<forall>k<length columns.
             TableRow_get (parse_table_data (build_table_md rows columns) columns ! (j + 2))
                 (name (columns ! k)) []
               = (if k = 0 then []
                  else str_strip (render_cell (rows ! j) (columns ! (k - 1))))))"
proof -
  let ?P = "parse_table_data (build_table_md rows columns) columns"
  have cells: "\<forall>cells\<in>set (table_cells rows columns).
      cells \<noteq> [] \<and> length cells = length columns \<and> (\<forall>v\<in>set cells. plain v)"
    using table_cells_plain [OF assms(2,3,4)] by blast
  have eq: "?P = map (\<lambda>cells. \<lparr>values = row_values 0 columns ([] # map str_strip cells @ [[]]) []\<rparr>)
               (table_cells rows columns)"
    using reparse_lines [OF assms(2) cells] assms(1,2)
    by (simp add: build_table_md_lines) (simp add: table_cells_def)
  have len: "length ?P = length rows + 2" by (simp add: eq table_cells_def)
  have look: "distinct (map name columns) \<longrightarrow>
          (\<forall>j<length rows. \<forall>k<length columns.
             TableRow_get (?P ! (j + 2)) (name (columns ! k)) []
               = (if k = 0 then [] else str_strip (render_cell (rows ! j) (columns ! (k - 1)))))"
  proof (intro impI allI)
    fix j k
    assume dist: "distinct (map name columns)" and j: "j < length rows" and k: "k < length columns"
    let ?cells = "map (render_cell (rows ! j)) columns"
    let ?parts = "[] # map str_strip ?cells @ [[]]"
    have "table_cells rows columns ! (j + 2) = ?cells" using j by (simp add: table_cells_def)
    then have row: "?P ! (j + 2) = \<lparr>values = row_values 0 columns ?parts []\<rparr>"
      using j by (simp add: eq table_cells_def)
    have rv: "row_values 0 columns ?parts []
        = zip (map name columns) (take (length (map name columns)) ?parts)"
      using row_values_distinct [of 0 columns ?parts "[]"] dist
        zip_take_left [of "map name columns" ?parts] by simp
    have nk: "name (columns ! k) = map name columns ! k" using k by simp
    have "TableRow_get (?P ! (j + 2)) (name (columns ! k)) []
        = TableRow_get \<lparr>values = zip (map name columns) (take (length (map name columns)) ?parts)\<rparr>
            (map name columns ! k) []"
      by (simp only: row rv nk)
    also have "\<dots> = ?parts ! k"
      by (rule TableRow_get_zip) (use dist k in simp_all)
    also have "\<dots> = (if k = 0 then [] else str_strip (render_cell (rows ! j) (columns ! (k - 1))))"
      using k by (cases k) (simp_all add: nth_append)
    finally show "TableRow_get (?P ! (j + 2)) (name (columns ! k)) []
        = (if k = 0 then [] else str_strip (render_cell (rows ! j) (columns ! (k - 1))))" .
  qed
  show ?thesis using eq len look by blast
qed

lemma tea_table:
  "build_table_md tea_row item_price
     = lit ''| Item | Price |\<newline>| --- | --- |\<newline>| Tea | 3 USD |''"
  by (simp add: build_table_md_def md_line_def render_cell_def TableRow_get_def dict_get_def
      tea_row_def item_price_def lit_def)

lemma tea_reparsed:
  "parse_table_data (lit ''| Item | Price |\<newline>| --- | --- |\<newline>| Tea | 3 USD |'') item_price
     = [\<lparr>values = [(lit ''item'', []), (lit ''price'', lit ''Item'')]\<rparr>,
        \<lparr>values = [(lit ''item'', []), (lit ''price'', lit ''---'')]\<rparr>,
        \<lparr>values = [(lit ''item'', []), (lit ''price'', lit ''Tea'')]\<rparr>]"
  by (simp add: parse_table_data_def parse_line_def line_fields_def item_price_def eval_str)

text \<open>
  C1 as stated fails: for one row with item \<open>Tea\<close> and price \<open>3 USD\<close> under two text
  columns, parsing the built table gives three rows, whose items are empty and whose prices
  are \<open>Item\<close>, \<open>---\<close> and \<open>Tea\<close>.
\<close>

theorem markdown_roundtrip_counterexample:
  "column_values (lit ''item'') tea_row = [lit ''Tea'']
   \<and> column_values (lit ''item'')
        (parse_table_data (build_table_md tea_row item_price) item_price) = [[], [], []]
   \<and> column_values (lit ''price'') tea_row = [lit ''3 USD'']
   \<and> column_values (lit ''price'')
        (parse_table_data (build_table_md tea_row item_price) item_price)
       = [lit ''Item'', lit ''---'', lit ''Tea'']"
  by (simp add: tea_table tea_reparsed)
    (simp add: column_values_def TableRow_get_def dict_get_def tea_row_def lit_def)

theorem markdown_table_reparse_witness:
  "parse_table_data (build_table_md tea_row item_price) item_price
     = [\<lparr>values = [(lit ''item'', []), (lit ''price'', lit ''Item'')]\<rparr>,
        \<lparr>values = [(lit ''item'', []), (lit ''price'', lit ''---'')]\<rparr>,
        \<lparr>values = [(lit ''item'', []), (lit ''price'', lit ''Tea'')]\<rparr>]
   \<and> TableRow_get (parse_table_data (build_table_md tea_row item_price) item_price ! 2)
        (lit ''price'') [] = lit ''Tea''"
proof -
  have h: "tea_row \<noteq> []" "item_price \<noteq> []" "\<forall>c\<in>set item_price. plain (header c)"
    "\<forall>r\<in>set tea_row. \<forall>c\<in>set item_price. plain (TableRow_get r (name c) [])"
    by (simp_all add: tea_row_def item_price_def plain_def TableRow_get_def dict_get_def lit_def)
  note t = markdown_table_reparse [OF h]
  have d: "distinct (map name item_price)" by (simp add: item_price_def lit_def)
  have "parse_table_data (build_table_md tea_row item_price) item_price
     = [\<lparr>values = [(lit ''item'', []), (lit ''price'', lit ''Item'')]\<rparr>,
        \<lparr>values = [(lit ''item'', []), (lit ''price'', lit ''---'')]\<rparr>,
        \<lparr>values = [(lit ''item'', []), (lit ''price'', lit ''Tea'')]\<rparr>]"
    using t [THEN conjunct1]
    by (simp add: table_cells_def tea_row_def item_price_def render_cell_def TableRow_get_def
        dict_get_def eval_str)
  moreover have "TableRow_get (parse_table_data (build_table_md tea_row item_price) item_price ! 2)
        (lit ''price'') [] = lit ''Tea''"
  proof -
    have lens: "length tea_row = 1" "length item_price = 2"
      by (simp_all add: tea_row_def item_price_def)
    have n1: "name (item_price ! Suc 0) = lit ''price''" by (simp add: item_price_def)
    have rc: "str_strip (render_cell (tea_row ! 0) (item_price ! 0)) = lit ''Tea''"
      by (simp add: tea_row_def item_price_def render_cell_def TableRow_get_def dict_get_def eval_str)
    have "TableRow_get (parse_table_data (build_table_md tea_row item_price) item_price ! (0 + 2))
        (name (item_price ! 1)) []
          = (if (1::nat) = 0 then [] else str_strip (render_cell (tea_row ! 0) (item_price ! (1 - 1))))"
      using t [THEN conjunct2, THEN conjunct2, rule_format, OF d, of 0 1] lens by simp
    then show ?thesis by (simp add: n1 rc numeral_2_eq_2)
  qed
  ultimately show ?thesis by simp
qed

section \<open>Keyword highlighting\<close>

lemma re_sub_match_here:
  assumes "keyword \<noteq> []" "list_all2 ci keyword m"
  shows "re_sub ci keyword repl (m @ rest) = repl m @ re_sub ci keyword repl rest"
proof -
  have len: "length m = length keyword" using assms(2) by (simp add: list_all2_lengthD)
  then obtain c cs where m: "m = c # cs" using assms(1) by (cases m) auto
  have lenk: "length keyword = Suc (length cs)" using len m by simp
  have tk: "take (length keyword) (c # cs @ rest) = m" by (simp add: lenk m)
  have pre: "ci_prefix ci keyword (c # cs @ rest)"
    using assms(2) by (simp only: ci_prefix_def tk) (simp add: lenk)
  have dr: "drop (length keyword - 1) (cs @ rest) = rest" by (simp add: lenk)
  have "re_sub ci keyword repl (c # cs @ rest)
      = repl (take (length keyword) (c # cs @ rest))
        @ re_sub ci keyword repl (drop (length keyword - 1) (cs @ rest))"
    using assms(1) pre by simp
  then show ?thesis by (simp only: tk dr) (simp add: m)
qed

lemma re_sub_leftmost:
  "\<lbrakk>keyword \<noteq> []; list_all2 ci keyword m;
    \<forall>i<length pre. \<not> ci_prefix ci keyword (drop i (pre @ m @ rest))\<rbrakk>
   \<Longrightarrow> re_sub ci keyword repl (pre @ m @ rest) = pre @ repl m @ re_sub ci keyword repl rest"
proof (induction pre)
  case Nil
  then show ?case by (simp add: re_sub_match_here)
next
  case (Cons p pre)
  have no0: "\<not> ci_prefix ci keyword (p # pre @ m @ rest)" using Cons.prems(3) by force
  have "\<forall>i<length pre. \<not> ci_prefix ci keyword (drop i (pre @ m @ rest))"
  proof (intro allI impI)
    fix i
    assume "i < length pre"
    then have "\<not> ci_prefix ci keyword (drop (Suc i) ((p # pre) @ m @ rest))"
      using Cons.prems(3) by (metis Suc_less_eq length_Cons)
    then show "\<not> ci_prefix ci keyword (drop i (pre @ m @ rest))" by simp
  qed
  then have "re_sub ci keyword repl (pre @ m @ rest) = pre @ repl m @ re_sub ci keyword repl rest"
    using Cons.IH Cons.prems(1,2) by blast
  then show ?case using no0 Cons.prems(1) by simp
qed

lemma re_sub_no_match:
  "\<lbrakk>keyword \<noteq> []; \<forall>i<length t. \<not> ci_prefix ci keyword (drop i t)\<rbrakk>
   \<Longrightarrow> re_sub ci keyword repl t = t"
proof (induction t)
  case Nil
  then show ?case by simp
next
  case (Cons c t)
  have no0: "\<not> ci_prefix ci keyword (c # t)" using Cons.prems(2) by force
  have "\<forall>i<length t. \<not> ci_prefix ci keyword (drop i t)"
  proof (intro allI impI)
    fix i
    assume "i < length t"
    then have "\<not> ci_prefix ci keyword (drop (Suc i) (c # t))"
      using Cons.prems(2) by (metis Suc_less_eq length_Cons)
    then show "\<not> ci_prefix ci keyword (drop i t)" by simp
  qed
  then have "re_sub ci keyword repl t = t" using Cons.IH Cons.prems(1) by blast
  then show ?case using no0 Cons.prems(1) by simp
qed

lemma highlight_keywords_snoc:
  "highlight_keywords ci text (keywords @ [keyword])
     = re_sub ci keyword b_tag (highlight_keywords ci text keywords)"
  by (simp add: highlight_keywords_def)

lemma highlight_keywords_md_snoc:
  "highlight_keywords_md ci text (keywords @ [keyword])
     = re_sub ci keyword bold_md (highlight_keywords_md ci text keywords)"
  by (simp add: highlight_keywords_md_def)

text \<open>
  C8, as amended. The keywords are applied in order, each to the text the keywords before
  it have left, markup included. For one keyword that is not empty, the text is scanned
  from the left: where \<open>m\<close> is the leftmost occurrence of the keyword up to case (no
  occurrence starts in the text \<open>pre\<close> before it), the text before it is kept, \<open>m\<close> is
  wrapped in the emphasis markup with its own casing, and the scan goes on in the text
  behind \<open>m\<close>; a text in which the keyword does not occur is unchanged. So each occurrence
  found by this scan is wrapped, and an occurrence that overlaps an earlier match is not.
\<close>

theorem highlight_keywords_scan:
  "highlight_keywords ci text [] = text
   \<and> highlight_keywords_md ci text [] = text
   \<and> highlight_keywords ci text (keywords @ [keyword])
       = re_sub ci keyword b_tag (highlight_keywords ci text keywords)
   \<and> highlight_keywords_md ci text (keywords @ [keyword])
       = re_sub ci keyword bold_md (highlight_keywords_md ci text keywords)
   \<and> (keyword \<noteq> [] \<and> list_all2 ci keyword m
        \<and> (\<forall>i<length pre. \<not> ci_prefix ci keyword (drop i (pre @ m @ rest)))
      \<longrightarrow> re_sub ci keyword b_tag (pre @ m @ rest)
            = pre @ lit ''<b>'' @ m @ lit ''</b>'' @ re_sub ci keyword b_tag rest
          \<and> re_sub ci keyword bold_md (pre @ m @ rest)
            = pre @ lit ''**'' @ m @ lit ''**'' @ re_sub ci keyword bold_md rest)
   \<and> (keyword \<noteq> [] \<and> (\<forall>i<length rest. \<not> ci_prefix ci keyword (drop i rest))
      \<longrightarrow> re_sub ci keyword b_tag rest = rest \<and> re_sub ci keyword bold_md rest = rest)"
  using re_sub_leftmost [of keyword ci m pre rest b_tag]
    re_sub_leftmost [of keyword ci m pre rest bold_md]
    re_sub_no_match [of keyword rest ci b_tag] re_sub_no_match [of keyword rest ci bold_md]
  by (simp add: highlight_keywords_snoc highlight_keywords_md_snoc)
    (simp add: highlight_keywords_def highlight_keywords_md_def b_tag_def bold_md_def)

lemma ascii_ci_SEO: "list_all2 ascii_ci (lit ''SEO'') (lit ''seo'')"
  by (simp add: ascii_ci_def ascii_lower_def lit_def)

lemma no_SEO_before: "\<forall>i<length (lit ''best ''). \<not> ci_prefix ascii_ci (lit ''SEO'') (drop i (lit ''best '' @ lit ''seo'' @ lit '' tips''))"
  by (simp add: lit_def ci_prefix_def ascii_ci_def ascii_lower_def All_less_Suc numeral_eq_Suc)

lemma no_SEO_after: "\<forall>i<length (lit '' tips''). \<not> ci_prefix ascii_ci (lit ''SEO'') (drop i (lit '' tips''))"
  by (simp add: lit_def ci_prefix_def ascii_ci_def ascii_lower_def All_less_Suc numeral_eq_Suc)

theorem highlight_keywords_scan_witness:
  "highlight_keywords ascii_ci (lit ''best seo tips'') [lit ''SEO''] = lit ''best <b>seo</b> tips''
   \<and> highlight_keywords_md ascii_ci (lit ''best seo tips'') [lit ''SEO''] = lit ''best **seo** tips''"
proof -
  note a = highlight_keywords_scan [of ascii_ci "lit ''best seo tips''" "[]" "lit ''SEO''"
      "lit ''seo''" "lit ''best ''" "lit '' tips''"]
  have t: "lit ''best seo tips'' = lit ''best '' @ lit ''seo'' @ lit '' tips''" by (simp add: lit_def)
  have k: "lit ''SEO'' \<noteq> []" by (simp add: lit_def)
  have h: "highlight_keywords ascii_ci (lit ''best seo tips'') [lit ''SEO'']
      = re_sub ascii_ci (lit ''SEO'') b_tag (lit ''best '' @ lit ''seo'' @ lit '' tips'')"
    using a by (simp add: t)
  have hm: "highlight_keywords_md ascii_ci (lit ''best seo tips'') [lit ''SEO'']
      = re_sub ascii_ci (lit ''SEO'') bold_md (lit ''best '' @ lit ''seo'' @ lit '' tips'')"
    using a by (simp add: t)
  have r: "re_sub ascii_ci (lit ''SEO'') b_tag (lit '' tips'') = lit '' tips''"
      "re_sub ascii_ci (lit ''SEO'') bold_md (lit '' tips'') = lit '' tips''"
    using a k no_SEO_after by blast+
  have "re_sub ascii_ci (lit ''SEO'') b_tag (lit ''best '' @ lit ''seo'' @ lit '' tips'')
      = lit ''best '' @ lit ''<b>'' @ lit ''seo'' @ lit ''</b>'' @ lit '' tips''"
    using a k ascii_ci_SEO no_SEO_before r by simp
  moreover have "re_sub ascii_ci (lit ''SEO'') bold_md (lit ''best '' @ lit ''seo'' @ lit '' tips'')
      = lit ''best '' @ lit ''**'' @ lit ''seo'' @ lit ''**'' @ lit '' tips''"
    using a k ascii_ci_SEO no_SEO_before r by simp
  ultimately show ?thesis by (simp add: h hm) (simp add: lit_def)
qed

text \<open>
  C8 as stated fails. The keyword \<open>aa\<close> occurs in \<open>aaa\<close> at positions 0 and 1; the
  occurrence at 0 is wrapped and the one at 1, which overlaps it, is not. And with the
  keywords \<open>a\<close> and \<open>ab\<close> applied in this order to \<open>ab\<close>, the occurrence of \<open>ab\<close> is
  not wrapped, since the markup of the first keyword has split it.
\<close>

theorem highlight_every_occurrence_counterexample:
  "ci_prefix ascii_ci (lit ''aa'') (drop 0 (lit ''aaa''))
   \<and> ci_prefix ascii_ci (lit ''aa'') (drop 1 (lit ''aaa''))
   \<and> highlight_keywords ascii_ci (lit ''aaa'') [lit ''aa''] = lit ''<b>aa</b>a''
   \<and> ci_prefix ascii_ci (lit ''ab'') (lit ''ab'')
   \<and> highlight_keywords ascii_ci (lit ''ab'') [lit ''a'', lit ''ab''] = lit ''<b>a</b>b''"
  by (simp add: highlight_keywords_def b_tag_def ci_prefix_def ascii_ci_def ascii_lower_def lit_def)


section \<open>Text segmentation\<close>

lemma flush_para_html_sim:
  "flush_para_html (render_state html_block s) = render_state html_block (spec_flush_para s)"
  by (simp add: flush_para_html_def spec_flush_para_def render_state_def)

lemma flush_list_html_sim:
  "flush_list_html (render_state html_block s) = render_state html_block (spec_flush_list s)"
  by (simp add: flush_list_html_def spec_flush_list_def render_state_def)

lemma flush_para_md_sim:
  "flush_para_md (render_state md_block s) = render_state md_block (spec_flush_para s)"
  by (simp add: flush_para_md_def spec_flush_para_def render_state_def)

lemma flush_list_md_sim:
  "flush_list_md (render_state md_block s) = render_state md_block (spec_flush_list s)"
  by (simp add: flush_list_md_def spec_flush_list_def render_state_def)

lemma render_state_upd:
  "(render_state markup s)\<lparr>current_list := xs\<rparr> = render_state markup (s\<lparr>list_buffer := xs\<rparr>)"
  "(render_state markup s)\<lparr>current_para := ys\<rparr> = render_state markup (s\<lparr>para_buffer := ys\<rparr>)"
  "current_list (render_state markup s) = list_buffer s"
  "current_para (render_state markup s) = para_buffer s"
  "paragraphs (render_state markup s) = map markup (blocks s)"
  by (simp_all add: render_state_def)

lemma line_step_html_sim:
  "line_step flush_para_html flush_list_html raw (render_state html_block s)
     = render_state html_block (spec_step raw s)"
  by (simp add: line_step_def spec_step_def Let_def flush_para_html_sim flush_list_html_sim
      render_state_upd)

lemma line_step_md_sim:
  "line_step flush_para_md flush_list_md raw (render_state md_block s)
     = render_state md_block (spec_step raw s)"
  by (simp add: line_step_def spec_step_def Let_def flush_para_md_sim flush_list_md_sim
      render_state_upd)

lemma fold_html_sim:
  "fold (line_step flush_para_html flush_list_html) ls (render_state html_block s)
     = render_state html_block (fold spec_step ls s)"
  by (induction ls arbitrary: s) (simp_all add: line_step_html_sim)

lemma fold_md_sim:
  "fold (line_step flush_para_md flush_list_md) ls (render_state md_block s)
     = render_state md_block (fold spec_step ls s)"
  by (induction ls arbitrary: s) (simp_all add: line_step_md_sim)

lemma init_state:
  "\<lparr>paragraphs = [], current_list = [], current_para = []\<rparr>
     = render_state markup \<lparr>blocks = [], list_buffer = [], para_buffer = []\<rparr>"
  by (simp add: render_state_def)

lemma html_paragraphs:
  "paragraphs (flush_list_html (flush_para_html
      (fold (line_step flush_para_html flush_list_html) (str_split 10 (str_strip text))
         \<lparr>paragraphs = [], current_list = [], current_para = []\<rparr>)))
     = map html_block (segment text)"
  by (simp only: init_state [of html_block] fold_html_sim flush_para_html_sim flush_list_html_sim
      render_state_upd segment_def spec_run_def)

lemma md_paragraphs:
  "paragraphs (flush_list_md (flush_para_md
      (fold (line_step flush_para_md flush_list_md) (str_split 10 (str_strip text))
         \<lparr>paragraphs = [], current_list = [], current_para = []\<rparr>)))
     = map md_block (segment text)"
  by (simp only: init_state [of md_block] fold_md_sim flush_para_md_sim flush_list_md_sim
      render_state_upd segment_def spec_run_def)

lemma segment_example:
  "segment (lit ''a\<newline>b\<newline>\<newline>- x\<newline>- y'') = [Paragraph (lit ''a b''), Bullets [lit ''x'', lit ''y'']]"
  by (simp add: segment_def spec_run_def spec_step_def spec_flush_para_def spec_flush_list_def
      bullet_line_def startswith_def eval_str)

text \<open>
  C5. \<open>text_to_html\<close> and \<open>text_to_md\<close> segment a text as the machine \<open>spec_step\<close> does:
  a blank line flushes the paragraph buffer, then the list buffer; a bullet line flushes
  the paragraph buffer and is appended, without its marker, to the list buffer; any other
  line flushes the list buffer and is appended to the paragraph buffer; at the end both
  buffers are flushed in the same order. The result of either function is the blocks of
  this machine, each in the markup of the format, joined (and highlighted when keywords are
  given). The text of the lines \<open>a\<close>, \<open>b\<close>, a blank line, \<open>- x\<close> and \<open>- y\<close> gives the paragraph \<open>a b\<close> followed by the list
  of \<open>x\<close> and \<open>y\<close>.
\<close>

theorem text_segmentation:
  "text_to_html ci text keywords
     = (if str_strip text = [] then []
        else case keywords of
               None \<Rightarrow> str_join [10] (map html_block (segment text))
             | Some ks \<Rightarrow>
                 if ks \<noteq> []
                 then highlight_keywords ci (str_join [10] (map html_block (segment text))) ks
                 else str_join [10] (map html_block (segment text)))
   \<and> text_to_md ci text keywords
     = (if str_strip text = [] then []
        else case keywords of
               None \<Rightarrow> str_join [10, 10] (map md_block (segment text))
             | Some ks \<Rightarrow>
                 if ks \<noteq> []
                 then highlight_keywords_md ci (str_join [10, 10] (map md_block (segment text))) ks
                 else str_join [10, 10] (map md_block (segment text)))
   \<and> segment (lit ''a\<newline>b\<newline>\<newline>- x\<newline>- y'')
       = [Paragraph (lit ''a b''), Bullets [lit ''x'', lit ''y'']]
   \<and> text_to_html ci (lit ''a\<newline>b\<newline>\<newline>- x\<newline>- y'') None
       = lit ''<p>a b</p>\<newline><ul>\<newline>  <li>x</li>\<newline>  <li>y</li>\<newline></ul>''
   \<and> text_to_md ci (lit ''a\<newline>b\<newline>\<newline>- x\<newline>- y'') None
       = lit ''a b\<newline>\<newline>- x\<newline>- y''"
proof -
  have h: "text_to_html ci t kw
     = (if str_strip t = [] then []
        else case kw of
               None \<Rightarrow> str_join [10] (map html_block (segment t))
             | Some ks \<Rightarrow>
                 if ks \<noteq> []
                 then highlight_keywords ci (str_join [10] (map html_block (segment t))) ks
                 else str_join [10] (map html_block (segment t)))" for t kw
    by (cases kw) (simp_all add: text_to_html_def Let_def html_paragraphs)
  have m: "text_to_md ci t kw
     = (if str_strip t = [] then []
        else case kw of
               None \<Rightarrow> str_join [10, 10] (map md_block (segment t))
             | Some ks \<Rightarrow>
                 if ks \<noteq> []
                 then highlight_keywords_md ci (str_join [10, 10] (map md_block (segment t))) ks
                 else str_join [10, 10] (map md_block (segment t)))" for t kw
    by (cases kw) (simp_all add: text_to_md_def Let_def md_paragraphs)
  have ne: "str_strip (lit ''a\<newline>b\<newline>\<newline>- x\<newline>- y'') \<noteq> []" by (simp add: eval_str)
  have "text_to_html ci (lit ''a\<newline>b\<newline>\<newline>- x\<newline>- y'') None
       = lit ''<p>a b</p>\<newline><ul>\<newline>  <li>x</li>\<newline>  <li>y</li>\<newline></ul>''"
    by (simp add: h ne segment_example) (simp add: lit_def)
  moreover have "text_to_md ci (lit ''a\<newline>b\<newline>\<newline>- x\<newline>- y'') None
       = lit ''a b\<newline>\<newline>- x\<newline>- y''"
    by (simp add: m ne segment_example) (simp add: lit_def)
  ultimately show ?thesis using h m segment_example by simp
qed

theorem text_segmentation_witness:
  "text_to_md ascii_ci (lit ''a\<newline>b\<newline>\<newline>- x\<newline>- y'') (Some [lit ''A''])
     = lit ''**a** b\<newline>\<newline>- x\<newline>- y''
   \<and> text_to_html ascii_ci (lit ''a\<newline>b\<newline>\<newline>- x\<newline>- y'') (Some [lit ''X''])
     = lit ''<p>a b</p>\<newline><ul>\<newline>  <li><b>x</b></li>\<newline>  <li>y</li>\<newline></ul>''
   \<and> text_to_html ascii_ci (lit ''  \<newline> '') (Some [lit ''A'']) = []"
proof -
  let ?T = "lit ''a\<newline>b\<newline>\<newline>- x\<newline>- y''"
  have ne: "str_strip ?T \<noteq> []" "str_strip (lit ''  \<newline> '') = []"
    by (simp_all add: eval_str)
  have k: "lit ''A'' \<noteq> []" "lit ''X'' \<noteq> []" by (simp_all add: lit_def)
  have "text_to_md ascii_ci ?T (Some [lit ''A''])
      = highlight_keywords_md ascii_ci (str_join [10, 10] (map md_block (segment ?T))) [lit ''A'']"
    using text_segmentation [of ascii_ci ?T "Some [lit ''A'']"] ne k by simp
  also have "\<dots> = lit ''**a** b\<newline>\<newline>- x\<newline>- y''"
    by (simp only: segment_example) (simp add: highlight_keywords_md_def bold_md_def ci_prefix_def
        ascii_ci_def ascii_lower_def lit_def)
  finally have md: "text_to_md ascii_ci ?T (Some [lit ''A'']) = lit ''**a** b\<newline>\<newline>- x\<newline>- y''" .
  have "text_to_html ascii_ci ?T (Some [lit ''X''])
      = highlight_keywords ascii_ci (str_join [10] (map html_block (segment ?T))) [lit ''X'']"
    using text_segmentation [of ascii_ci ?T "Some [lit ''X'']"] ne k by simp
  also have "\<dots> = lit ''<p>a b</p>\<newline><ul>\<newline>  <li><b>x</b></li>\<newline>  <li>y</li>\<newline></ul>''"
    by (simp only: segment_example) (simp add: highlight_keywords_def b_tag_def ci_prefix_def
        ascii_ci_def ascii_lower_def lit_def)
  finally have html: "text_to_html ascii_ci ?T (Some [lit ''X''])
      = lit ''<p>a b</p>\<newline><ul>\<newline>  <li><b>x</b></li>\<newline>  <li>y</li>\<newline></ul>''" .
  have "text_to_html ascii_ci (lit ''  \<newline> '') (Some [lit ''A'']) = []"
    using text_segmentation [of ascii_ci "lit ''  \<newline> ''" "Some [lit ''A'']"] ne by simp
  then show ?thesis using md html by simp
qed

section \<open>Section prompts\<close>

lemma prompt_around_avoid_topics:
  \<open>build_section_prompt lower ttl hdg section_words section_index total_sections
       previous_topics s ph lang
     = (lit ''Write original content about "''
        @ hdg
        @ lit ''".\<newline>\<newline>MAIN TITLE: ''
        @ ttl
        @ lit ''\<newline>SECTION: ''
        @ str_int (section_index + 1)
        @ lit ''/''
        @ str_int total_sections
        @ lit ''\<newline>PERSPECTIVE: ''
        @ get_section_perspective hdg section_index
        @ lit ''\<newline>TONE: ''
        @ tone_desc s
        @ lit ''\<newline>\<newline>CONTENT REQUIREMENTS:\<newline>- Approximately ''
        @ str_int section_words
        @ lit '' words\<newline>''
        @ lit ''- At least 1 concrete example or numerical data\<newline>''
        @ lit ''- At least 2 practical, actionable tips\<newline>''
        @ lit ''- For bullet lists use: "''
        @ [8226]
        @ lit '' "''
        @ keyword_instruction s
        @ secondary_instruction lower s hdg
        @ lit ''\<newline>- Use placeholders: ''
        @ placeholder_hint ph
        @ lit ''\<newline>\<newline>AVOID:'')
       @ avoid_topics previous_topics
       @ (lit ''\<newline>- DO NOT REPEAT MAIN TITLE: Don''
        @ [39]
        @ lit ''t use "''
        @ ttl
        @ lit ''" within the section\<newline>''
        @ lit ''- Generic phrases: "quality service", "reliable platform", "professional team"\<newline>''
        @ lit ''- Exaggerated claims: "the best", "absolutely", "must", "guaranteed"\<newline>''
        @ lit ''- Filler sentences: "as everyone knows", "undoubtedly"\<newline>''
        @ lit ''\<newline>''
        @ lit ''IMPORTANT: Write plain text only. Do not use HTML tags.\<newline>''
        @ lit ''\<newline>LANGUAGE: Write the content in ''
        @ lang
        @ lit ''.'')\<close>
  by (simp add: build_section_prompt_def)

lemma prompt_around_perspective:
  \<open>build_section_prompt lower ttl hdg section_words section_index total_sections
       previous_topics s ph lang
     = (lit ''Write original content about "''
        @ hdg
        @ lit ''".\<newline>\<newline>MAIN TITLE: ''
        @ ttl
        @ lit ''\<newline>SECTION: ''
        @ str_int (section_index + 1)
        @ lit ''/''
        @ str_int total_sections
        @ lit ''\<newline>'')
       @ lit ''PERSPECTIVE: '' @ get_section_perspective hdg section_index
       @ (lit ''\<newline>TONE: ''
        @ tone_desc s
        @ lit ''\<newline>\<newline>CONTENT REQUIREMENTS:\<newline>- Approximately ''
        @ str_int section_words
        @ lit '' words\<newline>''
        @ lit ''- At least 1 concrete example or numerical data\<newline>''
        @ lit ''- At least 2 practical, actionable tips\<newline>''
        @ lit ''- For bullet lists use: "''
        @ [8226]
        @ lit '' "''
        @ keyword_instruction s
        @ secondary_instruction lower s hdg
        @ lit ''\<newline>- Use placeholders: ''
        @ placeholder_hint ph
        @ lit ''\<newline>\<newline>AVOID:''
        @ avoid_topics previous_topics
        @ lit ''\<newline>- DO NOT REPEAT MAIN TITLE: Don''
        @ [39]
        @ lit ''t use "''
        @ ttl
        @ lit ''" within the section\<newline>''
        @ lit ''- Generic phrases: "quality service", "reliable platform", "professional team"\<newline>''
        @ lit ''- Exaggerated claims: "the best", "absolutely", "must", "guaranteed"\<newline>''
        @ lit ''- Filler sentences: "as everyone knows", "undoubtedly"\<newline>''
        @ lit ''\<newline>''
        @ lit ''IMPORTANT: Write plain text only. Do not use HTML tags.\<newline>''
        @ lit ''\<newline>LANGUAGE: Write the content in ''
        @ lang
        @ lit ''.'')\<close>
  by (simp add: build_section_prompt_def lit_def)


text \<open>
  C9. The perspective of a section is the entry of its index in the table of five
  perspectives (beginner basics, comparison and evaluation, advanced tips, common mistakes,
  future trends), and the generic in-depth analysis for every index from 5 on (and for a
  negative one); it stands in the prompt after \<open>PERSPECTIVE:\<close>. The topics covered before
  enter the prompt through the exclusion line only, which is absent for no topics and lists
  them, joined by commas, otherwise. The task of section \<open>i\<close> is built with the headings
  of the sections before \<open>i\<close> as these topics; the tasks are a function of the
  configuration alone, so no generated text can enter them.
\<close>

theorem section_prompt_construction:
  "get_section_perspective hdg 0 = lit ''Basic information and first steps for beginners''
   \<and> get_section_perspective hdg 1 = lit ''Practical comparison and evaluation criteria''
   \<and> get_section_perspective hdg 2 = lit ''Advanced tips and maximum benefit strategies''
   \<and> get_section_perspective hdg 3 = lit ''Common mistakes and how to avoid them''
   \<and> get_section_perspective hdg 4 = lit ''Future trends and things to watch out for''
   \<and> (section_index < 0 \<or> 5 \<le> section_index \<longrightarrow>
        get_section_perspective hdg section_index = lit ''In-depth analysis and concrete examples'')
   \<and> (\<exists>before after.
        build_section_prompt lower ttl hdg section_words section_index total_sections
            previous_topics s ph lang
          = before @ lit ''PERSPECTIVE: '' @ get_section_perspective hdg section_index @ after)
   \<and> (\<exists>before after. \<forall>topics.
        build_section_prompt lower ttl hdg section_words section_index total_sections
            topics s ph lang
          = before @ avoid_topics topics @ after)
   \<and> avoid_topics [] = []
   \<and> (previous_topics \<noteq> [] \<longrightarrow>
        avoid_topics previous_topics
          = lit ''\<newline>- DO NOT REPEAT (already covered): '' @ str_join (lit '', '') previous_topics)
   \<and> length (section_tasks lower config) = length (sections config)
   \<and> (i < length (sections config) \<longrightarrow>
        section_tasks lower config ! i
          = (lit ''section_'' @ str_nat i,
             build_section_prompt lower (title config) (heading (sections config ! i))
               (words (sections config ! i)) (int i) (int (length (sections config)))
               (take i (headings config)) (seo config) (placeholders config) (language config))
        \<and> take i (headings config) = map heading (take i (sections config)))"
proof -
  have p: "section_index < 0 \<or> 5 \<le> section_index \<longrightarrow>
        get_section_perspective hdg section_index = lit ''In-depth analysis and concrete examples''"
    by (auto simp: get_section_perspective_def perspectives_def dict_get_def)
  have b1: "\<exists>before after.
        build_section_prompt lower ttl hdg section_words section_index total_sections
            previous_topics s ph lang
          = before @ lit ''PERSPECTIVE: '' @ get_section_perspective hdg section_index @ after"
    by (intro exI) (rule prompt_around_perspective)
  have b2: "\<exists>before after. \<forall>topics.
        build_section_prompt lower ttl hdg section_words section_index total_sections
            topics s ph lang
          = before @ avoid_topics topics @ after"
    by (intro exI allI) (rule prompt_around_avoid_topics)
  have t: "i < length (sections config) \<longrightarrow>
        section_tasks lower config ! i
          = (lit ''section_'' @ str_nat i,
             build_section_prompt lower (title config) (heading (sections config ! i))
               (words (sections config ! i)) (int i) (int (length (sections config)))
               (take i (headings config)) (seo config) (placeholders config) (language config))
        \<and> take i (headings config) = map heading (take i (sections config))"
    by (simp add: section_tasks_def headings_def take_map)
  have e: "get_section_perspective hdg 0 = lit ''Basic information and first steps for beginners''
      \<and> get_section_perspective hdg 1 = lit ''Practical comparison and evaluation criteria''
      \<and> get_section_perspective hdg 2 = lit ''Advanced tips and maximum benefit strategies''
      \<and> get_section_perspective hdg 3 = lit ''Common mistakes and how to avoid them''
      \<and> get_section_perspective hdg 4 = lit ''Future trends and things to watch out for''"
    by (simp add: get_section_perspective_def perspectives_def dict_get_def)
  have a: "avoid_topics [] = []
      \<and> (previous_topics \<noteq> [] \<longrightarrow>
        avoid_topics previous_topics
          = lit ''\<newline>- DO NOT REPEAT (already covered): '' @ str_join (lit '', '') previous_topics)"
    by (simp add: avoid_topics_def)
  have l: "length (section_tasks lower config) = length (sections config)"
    by (simp add: section_tasks_def)
  show ?thesis using e p b1 b2 a l t by blast
qed

theorem section_prompt_construction_witness:
  "get_section_perspective (lit ''Extras'') 7 = lit ''In-depth analysis and concrete examples''
   \<and> section_tasks (map ascii_lower) two_sections ! 1
       = (lit ''section_1'',
          build_section_prompt (map ascii_lower) (lit ''Tea guide'') (lit ''Pricing'') 150 1 2
            [lit ''Basics'']
            \<lparr>primary_keyword = lit ''tea'', secondary_keywords = [], tone = lit ''informative'',
               target_audience = []\<rparr>
            \<lparr>item_prefix = lit ''ITEM'', value_prefix = lit ''VALUE''\<rparr> (lit ''English''))
   \<and> avoid_topics [lit ''Basics''] = lit ''\<newline>- DO NOT REPEAT (already covered): Basics''"
  using section_prompt_construction [where hdg = "lit ''Extras''" and section_index = 7
      and previous_topics = "[lit ''Basics'']" and lower = "map ascii_lower"
      and config = two_sections and i = 1]
  by (simp add: two_sections_def headings_def lit_def)

end
